theory Spec2Isabelle
  imports Complex_Main
begin

section \<open>The labelled array that smoothdata works on\<close>

text \<open>
  \<^verbatim>\<open>smoothdata(variable, dim=None, NPoints=3)\<close> takes a scipp variable, slices it along
  \<^verbatim>\<open>dim\<close>, averages the slices and writes the averages into a copy. The container is
  the host library's; what the function needs of it is modelled here. A variable has its
  dimensions, outermost first, each a label with its extent, and an element for every
  choice of an index per label. Elements are read through a coordinate function from
  labels to indices, so that slicing, reducing and assigning along one dimension leave
  the other coordinates alone; what the element function says outside the extents is of
  no concern.

  Values are exact rationals, so a mean is the exact quotient; the rounding of the
  floating-point values of a real variable is not modelled, nor are units and variances.
  The theorems below compare an output value with the mean that the same operation takes
  of a slice, or evaluate means of a few small integers, whose quotients a binary
  floating-point division takes exactly; none of them says what a mean is where rounding
  matters.

  Variables are objects: \<^verbatim>\<open>variable.copy()\<close> allocates a new one and
  \<^verbatim>\<open>out[dim, index] = ...\<close> writes into an existing one. The store is the list of the
  objects allocated so far, and a reference is a position in it.
\<close>

datatype error = ValueError string | DimensionError | IndexError | TypeError

type_synonym coords = "string \<Rightarrow> nat"

record variable =
  var_dims :: "(string \<times> nat) list"
  var_elems :: "coords \<Rightarrow> rat"

type_synonym ref = nat
type_synonym store = "variable list"
type_synonym 'a result = "(error + 'a) \<times> store"

definition extent :: "variable \<Rightarrow> string \<Rightarrow> nat option" where
  "extent v d = map_of (var_dims v) d"

definition set_extent :: "string \<Rightarrow> nat \<Rightarrow> (string \<times> nat) list \<Rightarrow> (string \<times> nat) list" where
  "set_extent d m ds = map (\<lambda>(l, k). if l = d then (l, m) else (l, k)) ds"

definition drop_dim :: "string \<Rightarrow> (string \<times> nat) list \<Rightarrow> (string \<times> nat) list" where
  "drop_dim d ds = filter (\<lambda>(l, k). l \<noteq> d) ds"

subsection \<open>Indexing conventions of the container\<close>

text \<open>
  A range \<^verbatim>\<open>v[dim, start:stop]\<close> follows Python's slice rules for an extent \<open>n\<close>: a
  negative bound counts from the end, and a bound that is still outside \<open>0..n\<close> is
  clamped to it; a range whose start is not before its stop is empty. An integer index
  \<^verbatim>\<open>v[dim, index]\<close> counts from the end when it is negative, and is an error outside
  \<open>-n..n-1\<close>; it removes the dimension. A dimension that the variable does not have is
  an error.
\<close>

definition adjust_index :: "int \<Rightarrow> int \<Rightarrow> int" where
  "adjust_index n i =
     (if i < 0 then (if i + n < 0 then 0 else i + n)
      else if n \<le> i then n else i)"

definition getitem_slice :: "variable \<Rightarrow> string \<Rightarrow> int option \<Rightarrow> int option \<Rightarrow> error + variable" where
  "getitem_slice v d start stop =
     (case extent v d of
        None \<Rightarrow> Inl DimensionError
      | Some n \<Rightarrow>
          let b = (case start of None \<Rightarrow> 0 | Some i \<Rightarrow> adjust_index (int n) i);
              e = (case stop of None \<Rightarrow> int n | Some i \<Rightarrow> adjust_index (int n) i)
          in Inr \<lparr>var_dims = set_extent d (nat (e - b)) (var_dims v),
                  var_elems = (\<lambda>ix. var_elems v (ix(d := ix d + nat b)))\<rparr>)"

definition wrap_index :: "nat \<Rightarrow> int \<Rightarrow> nat" where
  "wrap_index n i = nat (if i < 0 then i + int n else i)"

definition getitem_index :: "variable \<Rightarrow> string \<Rightarrow> int \<Rightarrow> error + variable" where
  "getitem_index v d i =
     (case extent v d of
        None \<Rightarrow> Inl DimensionError
      | Some n \<Rightarrow>
          if i < - int n \<or> int n \<le> i then Inl IndexError
          else Inr \<lparr>var_dims = drop_dim d (var_dims v),
                    var_elems = (\<lambda>ix. var_elems v (ix(d := wrap_index n i)))\<rparr>)"

text \<open>
  \<^verbatim>\<open>v[dim, index] = value\<close>: the index is looked up first, then the value, which must
  have the dimensions of \<^verbatim>\<open>v[dim, index]\<close>, is copied in.
\<close>

definition setitem :: "variable \<Rightarrow> string \<Rightarrow> int \<Rightarrow> variable \<Rightarrow> error + variable" where
  "setitem v d i val =
     (case extent v d of
        None \<Rightarrow> Inl DimensionError
      | Some n \<Rightarrow>
          if i < - int n \<or> int n \<le> i then Inl IndexError
          else if var_dims val \<noteq> drop_dim d (var_dims v) then Inl DimensionError
          else Inr (v\<lparr>var_elems :=
                 (\<lambda>ix. if ix d = wrap_index n i then var_elems val ix else var_elems v ix)\<rparr>))"

text \<open>
  \<^verbatim>\<open>sc.mean(v, dim)\<close> removes the dimension: each element of the result is the sum over
  the count along \<^verbatim>\<open>dim\<close>. Over an extent of 0 the library yields a not-a-number; the
  quotient by zero is 0 in HOL, and no theorem below rests on it
  (\<open>stored_slices_nonempty\<close>).
\<close>

definition mean :: "variable \<Rightarrow> string \<Rightarrow> error + variable" where
  "mean v d =
     (case extent v d of
        None \<Rightarrow> Inl DimensionError
      | Some n \<Rightarrow>
          Inr \<lparr>var_dims = drop_dim d (var_dims v),
               var_elems = (\<lambda>ix. sum_list (map (\<lambda>k. var_elems v (ix(d := k))) [0..<n]) / of_nat n)\<rparr>)"

text \<open>
  \<^verbatim>\<open>len(v.values)\<close>: the values are an array in the order of the dimensions, and the
  length of an array is the extent of its outermost dimension; an array without
  dimensions has none.
\<close>

definition len_values :: "variable \<Rightarrow> error + int" where
  "len_values v = (case var_dims v of [] \<Rightarrow> Inl TypeError | (l, n) # ds \<Rightarrow> Inr (int n))"

definition copy :: "ref \<Rightarrow> store \<Rightarrow> ref \<times> store" where
  "copy r s = (length s, s @ [s ! r])"

subsection \<open>Variables written out\<close>

text \<open>
  A variable of one dimension from its values, a variable of two dimensions from its
  rows, and the values again: the value of a variable without dimensions, the values of
  one with one dimension, the rows of one with two.
\<close>

definition origin :: coords where
  "origin = (\<lambda>l. 0)"

definition of_list :: "string \<Rightarrow> rat list \<Rightarrow> variable" where
  "of_list d xs = \<lparr>var_dims = [(d, length xs)], var_elems = (\<lambda>ix. xs ! ix d)\<rparr>"

definition of_rows :: "string \<Rightarrow> string \<Rightarrow> nat \<Rightarrow> rat list list \<Rightarrow> variable" where
  "of_rows r c n rows =
     \<lparr>var_dims = [(r, length rows), (c, n)], var_elems = (\<lambda>ix. rows ! ix r ! ix c)\<rparr>"

definition scalar :: "variable \<Rightarrow> rat" where
  "scalar v = var_elems v origin"

definition to_list :: "variable \<Rightarrow> string \<Rightarrow> rat list" where
  "to_list v d =
     (case extent v d of None \<Rightarrow> [] | Some n \<Rightarrow> map (\<lambda>k. var_elems v (origin(d := k))) [0..<n])"

definition to_rows :: "variable \<Rightarrow> string \<Rightarrow> string \<Rightarrow> rat list list" where
  "to_rows v r c =
     (case (extent v r, extent v c) of
        (Some m, Some n) \<Rightarrow>
          map (\<lambda>j. map (\<lambda>k. var_elems v (origin(r := j, c := k))) [0..<n]) [0..<m]
      | _ \<Rightarrow> [])"

subsection \<open>Loops\<close>

text \<open>\<^verbatim>\<open>range(a, b)\<close> over Python integers: \<open>a, a + 1, ..., b - 1\<close>, empty when \<open>b \<le> a\<close>.\<close>

definition py_range :: "int \<Rightarrow> int \<Rightarrow> int list" where
  "py_range a b = [a..b - 1]"

text \<open>A \<^verbatim>\<open>for\<close> loop whose body may raise: the first error ends the loop.\<close>

fun for_loop :: "int list \<Rightarrow> (int \<Rightarrow> store \<Rightarrow> unit result) \<Rightarrow> store \<Rightarrow> unit result" where
  "for_loop [] body s = (Inr (), s)"
| "for_loop (index # rest) body s =
     (case body index s of
        (Inl e, s') \<Rightarrow> (Inl e, s')
      | (Inr _, s') \<Rightarrow> for_loop rest body s')"

section \<open>smoothdata\<close>

text \<open>The expression \<^verbatim>\<open>sc.mean(variable[dim, start_index:end_index], dim)\<close>.\<close>

definition mean_slice :: "variable \<Rightarrow> string \<Rightarrow> int \<Rightarrow> int \<Rightarrow> error + variable" where
  "mean_slice v d start_index end_index =
     (case getitem_slice v d (Some start_index) (Some end_index) of
        Inl e \<Rightarrow> Inl e
      | Inr view \<Rightarrow> mean view d)"

text \<open>
  The statement shared by the three loops,
  \<^verbatim>\<open>out[dim, index] = sc.mean(variable[dim, start_index:end_index], dim)\<close>:
  the mean is computed first, then stored.
\<close>

definition assign_mean :: "ref \<Rightarrow> ref \<Rightarrow> string \<Rightarrow> int \<Rightarrow> int \<Rightarrow> int \<Rightarrow> store \<Rightarrow> unit result" where
  "assign_mean variable out d index start_index end_index s =
     (case mean_slice (s ! variable) d start_index end_index of
        Inl e \<Rightarrow> (Inl e, s)
      | Inr m \<Rightarrow>
          (case setitem (s ! out) d index m of
             Inl e \<Rightarrow> (Inl e, s)
           | Inr out' \<Rightarrow> (Inr (), s[out := out'])))"

text \<open>The slice bounds \<open>(start_index, end_index)\<close> that each loop computes for an index.\<close>

definition start_slice :: "int \<Rightarrow> int \<Rightarrow> int \<times> int" where
  "start_slice hr index = (0, index + hr + 1)"

definition main_slice :: "int \<Rightarrow> int \<Rightarrow> int \<times> int" where
  "main_slice hr index = (index - hr, index + hr + 1)"

definition end_slice :: "int \<Rightarrow> int \<Rightarrow> int \<Rightarrow> int \<times> int" where
  "end_slice data_length hr index = (index - hr, data_length)"

definition start_loop :: "ref \<Rightarrow> ref \<Rightarrow> string \<Rightarrow> int \<Rightarrow> store \<Rightarrow> unit result" where
  "start_loop variable out d hr =
     for_loop (py_range 0 hr)
       (\<lambda>index. case start_slice hr index of
          (start_index, end_index) \<Rightarrow> assign_mean variable out d index start_index end_index)"

definition main_loop :: "ref \<Rightarrow> ref \<Rightarrow> string \<Rightarrow> int \<Rightarrow> int \<Rightarrow> store \<Rightarrow> unit result" where
  "main_loop variable out d data_length hr =
     for_loop (py_range hr (data_length - hr))
       (\<lambda>index. case main_slice hr index of
          (start_index, end_index) \<Rightarrow> assign_mean variable out d index start_index end_index)"

definition end_loop :: "ref \<Rightarrow> ref \<Rightarrow> string \<Rightarrow> int \<Rightarrow> int \<Rightarrow> store \<Rightarrow> unit result" where
  "end_loop variable out d data_length hr =
     for_loop (py_range (data_length - hr) data_length)
       (\<lambda>index. case end_slice data_length hr index of
          (start_index, end_index) \<Rightarrow> assign_mean variable out d index start_index end_index)"

text \<open>
  The function. Its parameter \<^verbatim>\<open>dim\<close> is written \<open>dim'\<close> here (\<open>dim\<close> is a constant of
  the library), with \<open>None\<close> for the default. The two checks come first; then
  \<^verbatim>\<open>data_length = len(variable[dim, :].values)\<close>, the copy, the half range and the three
  loops, in this order.
\<close>

definition smoothdata :: "ref \<Rightarrow> string option \<Rightarrow> int \<Rightarrow> store \<Rightarrow> ref result" where
  "smoothdata variable dim' NPoints s =
     (case dim' of
        None \<Rightarrow> (Inl (ValueError ''smoothdata was not given a dim to smooth.''), s)
      | Some d \<Rightarrow>
          if NPoints < 3 then (Inl (ValueError ''smoothdata needs NPoints of 3 or higher.''), s)
          else
            (case getitem_slice (s ! variable) d None None of
               Inl e \<Rightarrow> (Inl e, s)
             | Inr whole \<Rightarrow>
                 (case len_values whole of
                    Inl e \<Rightarrow> (Inl e, s)
                  | Inr data_length \<Rightarrow>
                      let (out, s0) = copy variable s;
                          hr = NPoints div 2
                      in (case start_loop variable out d hr s0 of
                            (Inl e, s1) \<Rightarrow> (Inl e, s1)
                          | (Inr _, s1) \<Rightarrow>
                              (case main_loop variable out d data_length hr s1 of
                                 (Inl e, s2) \<Rightarrow> (Inl e, s2)
                               | (Inr _, s2) \<Rightarrow>
                                   (case end_loop variable out d data_length hr s2 of
                                      (Inl e, s3) \<Rightarrow> (Inl e, s3)
                                    | (Inr _, s3) \<Rightarrow> (Inr out, s3)))))))"

section \<open>The slices that a call takes\<close>

text \<open>
  The same loop and the same function once more, keeping a log of the slices: each time
  the statement of a loop is run, the bounds \<open>(start_index, end_index)\<close> that it passes
  to \<^verbatim>\<open>variable[dim, start_index:end_index]\<close> are added to the log, in the order of the
  run. The slice is taken before the mean is stored, so the bounds of a statement that
  raises are in the log as well; a loop that is not reached adds nothing. Without the log
  these are \<open>for_loop\<close> and \<open>smoothdata\<close> (\<open>for_loop_log_result\<close> and
  \<open>smoothdata_log_result\<close> below).
\<close>

type_synonym slice_log = "(int \<times> int) list"

fun for_loop_log ::
  "int list \<Rightarrow> (int \<Rightarrow> int \<times> int) \<Rightarrow> (int \<Rightarrow> int \<Rightarrow> int \<Rightarrow> store \<Rightarrow> unit result) \<Rightarrow>
   store \<Rightarrow> slice_log \<Rightarrow> unit result \<times> slice_log" where
  "for_loop_log [] bounds stmt s taken = ((Inr (), s), taken)"
| "for_loop_log (index # rest) bounds stmt s taken =
     (case bounds index of
        (start_index, end_index) \<Rightarrow>
          (case stmt index start_index end_index s of
             (Inl e, s') \<Rightarrow> ((Inl e, s'), taken @ [(start_index, end_index)])
           | (Inr _, s') \<Rightarrow> for_loop_log rest bounds stmt s' (taken @ [(start_index, end_index)])))"

definition smoothdata_log :: "ref \<Rightarrow> string option \<Rightarrow> int \<Rightarrow> store \<Rightarrow> ref result \<times> slice_log" where
  "smoothdata_log variable dim' NPoints s =
     (case dim' of
        None \<Rightarrow> ((Inl (ValueError ''smoothdata was not given a dim to smooth.''), s), [])
      | Some d \<Rightarrow>
          if NPoints < 3 then ((Inl (ValueError ''smoothdata needs NPoints of 3 or higher.''), s), [])
          else
            (case getitem_slice (s ! variable) d None None of
               Inl e \<Rightarrow> ((Inl e, s), [])
             | Inr whole \<Rightarrow>
                 (case len_values whole of
                    Inl e \<Rightarrow> ((Inl e, s), [])
                  | Inr data_length \<Rightarrow>
                      let (out, s0) = copy variable s;
                          hr = NPoints div 2
                      in (case for_loop_log (py_range 0 hr) (start_slice hr)
                                 (assign_mean variable out d) s0 [] of
                            ((Inl e, s1), log1) \<Rightarrow> ((Inl e, s1), log1)
                          | ((Inr _, s1), log1) \<Rightarrow>
                              (case for_loop_log (py_range hr (data_length - hr)) (main_slice hr)
                                      (assign_mean variable out d) s1 log1 of
                                 ((Inl e, s2), log2) \<Rightarrow> ((Inl e, s2), log2)
                               | ((Inr _, s2), log2) \<Rightarrow>
                                   (case for_loop_log (py_range (data_length - hr) data_length)
                                           (end_slice data_length hr)
                                           (assign_mean variable out d) s2 log2 of
                                      ((Inl e, s3), log3) \<Rightarrow> ((Inl e, s3), log3)
                                    | ((Inr _, s3), log3) \<Rightarrow> ((Inr out, s3), log3)))))))"

section \<open>What the loops compute, in closed form\<close>

text \<open>
  An element of \<^verbatim>\<open>sc.mean(v[dim, start:stop], dim)\<close>, for the element function \<open>f\<close> of
  \<open>v\<close> and its extent \<open>n\<close> along \<open>d\<close> (\<open>mean_slice_eq\<close> below).
\<close>

definition window_mean :: "(coords \<Rightarrow> rat) \<Rightarrow> string \<Rightarrow> nat \<Rightarrow> int \<Rightarrow> int \<Rightarrow> coords \<Rightarrow> rat" where
  "window_mean f d n start stop ix =
     (let b = adjust_index (int n) start; e = adjust_index (int n) stop
      in sum_list (map (\<lambda>k. f (ix(d := k + nat b))) [0..<nat (e - b)]) / of_nat (nat (e - b)))"

text \<open>
  The elements of the copy after a loop over \<open>indices\<close> that stores at each index the
  mean of the slice \<open>bounds index\<close> of the input (\<open>for_loop_writes\<close> below: this is what
  \<open>for_loop\<close> does while every index is within the extent).
\<close>

definition loop_elems ::
  "(int \<Rightarrow> int \<times> int) \<Rightarrow> (coords \<Rightarrow> rat) \<Rightarrow> string \<Rightarrow> nat \<Rightarrow> int list \<Rightarrow> (coords \<Rightarrow> rat) \<Rightarrow> coords \<Rightarrow> rat" where
  "loop_elems bounds f d n indices g =
     fold (\<lambda>index g. case bounds index of
             (start_index, end_index) \<Rightarrow>
               (\<lambda>ix. if ix d = nat index then window_mean f d n start_index end_index ix else g ix))
       indices g"

text \<open>
  The elements that a call leaves in the copy when \<^verbatim>\<open>data_length\<close> is the extent \<open>n\<close>
  along \<open>d\<close>: each position holds the mean that the last loop to visit it has stored
  (\<open>smoothdata_returns\<close> below).
\<close>

definition smoothed :: "(coords \<Rightarrow> rat) \<Rightarrow> string \<Rightarrow> nat \<Rightarrow> int \<Rightarrow> coords \<Rightarrow> rat" where
  "smoothed f d n hr ix =
     (let index = int (ix d); data_length = int n in
      if data_length \<le> index then f ix
      else if data_length - hr \<le> index then window_mean f d n (index - hr) data_length ix
      else if hr \<le> index then window_mean f d n (index - hr) (index + hr + 1) ix
      else window_mean f d n 0 (index + hr + 1) ix)"

text \<open>
  The mean of the elements at the positions \<open>ks\<close> along \<open>d\<close>, the other coordinates as in
  \<open>ix\<close>.
\<close>

definition mean_over :: "(coords \<Rightarrow> rat) \<Rightarrow> string \<Rightarrow> nat list \<Rightarrow> coords \<Rightarrow> rat" where
  "mean_over f d ks ix = sum_list (map (\<lambda>k. f (ix(d := k))) ks) / of_nat (length ks)"

text \<open>
  The slice bounds of a whole call that returns, in the order of the loops: start, main,
  end (\<open>smoothdata_log_returns\<close> below: this is the log of a call that returns).
\<close>

definition slices_taken :: "int \<Rightarrow> int \<Rightarrow> (int \<times> int) list" where
  "slices_taken data_length hr =
     map (start_slice hr) (py_range 0 hr) @
     map (main_slice hr) (py_range hr (data_length - hr)) @
     map (end_slice data_length hr) (py_range (data_length - hr) data_length)"

section \<open>The container's operations\<close>

lemma map_of_set_extent:
  "map_of ds d = Some n \<Longrightarrow> map_of (set_extent d m ds) d = Some m"
proof (induction ds)
  case Nil
  then show ?case by simp
next
  case (Cons p ds)
  obtain l k where p: "p = (l, k)" by (cases p)
  show ?case
  proof (cases "l = d")
    case True
    with p show ?thesis by (simp add: set_extent_def)
  next
    case False
    with p Cons show ?thesis by (simp add: set_extent_def)
  qed
qed

lemma drop_dim_set_extent: "drop_dim d (set_extent d m ds) = drop_dim d ds"
  by (induction ds) (auto simp add: set_extent_def drop_dim_def)

lemma getitem_slice_wrong_dim: "extent v d = None \<Longrightarrow> getitem_slice v d a b = Inl DimensionError"
  by (simp add: getitem_slice_def)

lemma len_values_whole:
  assumes "extent v d = Some n"
  shows "\<exists>whole. getitem_slice v d None None = Inr whole \<and> len_values whole = len_values v"
proof -
  have "var_dims v \<noteq> []" using assms by (auto simp add: extent_def)
  then obtain l k ds where ds: "var_dims v = (l, k) # ds" by (cases "var_dims v") auto
  have "len_values \<lparr>var_dims = set_extent d n (var_dims v), var_elems = g\<rparr> = len_values v" for g
    using assms ds by (auto simp add: len_values_def set_extent_def extent_def split: if_splits)
  then show ?thesis using assms by (simp add: getitem_slice_def)
qed

lemma window_mean_upd [simp]: "window_mean f d n a b (ix(d := k)) = window_mean f d n a b ix"
  by (simp add: window_mean_def Let_def)

lemma mean_slice_eq:
  assumes "extent v d = Some n"
  shows "mean_slice v d a b =
    Inr \<lparr>var_dims = drop_dim d (var_dims v), var_elems = window_mean (var_elems v) d n a b\<rparr>"
proof -
  let ?b = "adjust_index (int n) a" and ?e = "adjust_index (int n) b"
  have "extent \<lparr>var_dims = set_extent d (nat (?e - ?b)) (var_dims v), var_elems = g\<rparr> d = Some (nat (?e - ?b))" for g
    using assms by (simp add: extent_def map_of_set_extent)
  then show ?thesis
    using assms
    by (simp add: mean_slice_def getitem_slice_def mean_def Let_def drop_dim_set_extent
        window_mean_def fun_eq_iff)
qed

lemma extent_elems [simp]: "extent (v\<lparr>var_elems := g\<rparr>) d = extent v d"
  by (simp add: extent_def)

lemma setitem_ok:
  assumes "extent v d = Some n" "0 \<le> i" "i < int n" "var_dims val = drop_dim d (var_dims v)"
  shows "setitem v d i val =
    Inr (v\<lparr>var_elems := (\<lambda>ix. if ix d = nat i then var_elems val ix else var_elems v ix)\<rparr>)"
  using assms by (simp add: setitem_def wrap_index_def)

lemma setitem_beyond:
  "extent v d = Some n \<Longrightarrow> int n \<le> i \<Longrightarrow> setitem v d i val = Inl IndexError"
  by (simp add: setitem_def)

lemma getitem_index_ok:
  assumes "extent v d = Some n" "0 \<le> i" "i < int n"
  shows "getitem_index v d i =
    Inr \<lparr>var_dims = drop_dim d (var_dims v), var_elems = (\<lambda>ix. var_elems v (ix(d := nat i)))\<rparr>"
  using assms by (simp add: getitem_index_def wrap_index_def)

text \<open>Within the extent a slice is the run of positions between its bounds.\<close>

lemma map_shift_upt: "map (\<lambda>k. g (k + a)) [0..<m] = map g [a..<a + m]"
  by (induction m) (simp_all add: add.commute)

lemma window_mean_in_range:
  assumes "0 \<le> a" "a \<le> b" "b \<le> int n"
  shows "window_mean f d n a b ix = mean_over f d [nat a..<nat b] ix"
proof -
  have ab: "adjust_index (int n) a = a" "adjust_index (int n) b = b"
    using assms by (auto simp add: adjust_index_def)
  have "nat a + nat (b - a) = nat b" using assms by simp
  then show ?thesis
    using assms map_shift_upt [of "\<lambda>k. f (ix(d := k))" "nat a" "nat (b - a)"]
    by (simp add: window_mean_def mean_over_def ab nat_diff_distrib)
qed

lemma window_mean_clamped:
  assumes "0 \<le> a" "a \<le> int n" "int n \<le> b"
  shows "window_mean f d n a b ix = mean_over f d [nat a..<n] ix"
proof -
  have "window_mean f d n a b ix = window_mean f d n a (int n) ix"
    using assms by (simp add: window_mean_def adjust_index_def)
  then show ?thesis
    using window_mean_in_range [of a "int n" n f d ix] assms by simp
qed

lemma window_mean_from_end:
  assumes "a < 0" "0 \<le> int n + a"
  shows "window_mean f d n a (int n) ix = mean_over f d [nat (int n + a)..<n] ix"
proof -
  have "window_mean f d n a (int n) ix = window_mean f d n (int n + a) (int n) ix"
    using assms by (simp add: window_mean_def adjust_index_def add.commute)
  then show ?thesis
    using window_mean_in_range [of "int n + a" "int n" n f d ix] assms by simp
qed

section \<open>What a loop leaves in the copy\<close>

text \<open>
  While the loops run, the store is the caller's store followed by the copy, and only the
  copy's elements change. A loop whose indices are all within the extent stores a mean at
  each of them; a loop that reaches an index beyond the extent raises there.
\<close>

lemma assign_mean_ok:
  assumes "variable < length s" "extent (s ! variable) d = Some n"
    and "0 \<le> index" "index < int n"
  shows "assign_mean variable (length s) d index a b (s @ [(s ! variable)\<lparr>var_elems := g\<rparr>]) =
    (Inr (), s @ [(s ! variable)\<lparr>var_elems :=
       (\<lambda>ix. if ix d = nat index then window_mean (var_elems (s ! variable)) d n a b ix else g ix)\<rparr>])"
  using assms by (simp add: assign_mean_def mean_slice_eq setitem_ok nth_append cong: if_cong)

lemma assign_mean_beyond:
  assumes "variable < length s" "extent (s ! variable) d = Some n"
    and "int n \<le> index"
  shows "assign_mean variable (length s) d index a b (s @ [(s ! variable)\<lparr>var_elems := g\<rparr>]) =
    (Inl IndexError, s @ [(s ! variable)\<lparr>var_elems := g\<rparr>])"
  using assms by (simp add: assign_mean_def mean_slice_eq setitem_beyond nth_append)

lemma for_loop_writes:
  assumes "variable < length s" "extent (s ! variable) d = Some n"
    and "\<forall>i\<in>set indices. 0 \<le> i \<and> i < int n"
  shows "for_loop indices
           (\<lambda>index. case bounds index of (a, b) \<Rightarrow> assign_mean variable (length s) d index a b)
           (s @ [(s ! variable)\<lparr>var_elems := g\<rparr>]) =
         (Inr (), s @ [(s ! variable)\<lparr>var_elems :=
            loop_elems bounds (var_elems (s ! variable)) d n indices g\<rparr>])"
  using assms(3)
proof (induction indices arbitrary: g)
  case Nil
  show ?case by (simp add: loop_elems_def)
next
  case (Cons i indices)
  obtain a b where ab: "bounds i = (a, b)" by (cases "bounds i")
  have i: "0 \<le> i" "i < int n" using Cons.prems by simp_all
  have rest: "\<forall>j\<in>set indices. 0 \<le> j \<and> j < int n" using Cons.prems by simp
  show ?case
    using Cons.IH [OF rest] assign_mean_ok [OF assms(1,2) i, of a b g] ab
    by (simp add: loop_elems_def)
qed

lemma for_loop_raises:
  assumes "variable < length s" "extent (s ! variable) d = Some n"
    and "\<forall>i\<in>set indices. 0 \<le> i" "\<exists>i\<in>set indices. int n \<le> i"
  shows "\<exists>g'. for_loop indices
           (\<lambda>index. case bounds index of (a, b) \<Rightarrow> assign_mean variable (length s) d index a b)
           (s @ [(s ! variable)\<lparr>var_elems := g\<rparr>]) =
         (Inl IndexError, s @ [(s ! variable)\<lparr>var_elems := g'\<rparr>])"
  using assms(3,4)
proof (induction indices arbitrary: g)
  case Nil
  then show ?case by simp
next
  case (Cons i indices)
  obtain a b where ab: "bounds i = (a, b)" by (cases "bounds i")
  show ?case
  proof (cases "i < int n")
    case True
    have i: "0 \<le> i" using Cons.prems by simp
    have "\<forall>j\<in>set indices. 0 \<le> j" "\<exists>j\<in>set indices. int n \<le> j"
      using Cons.prems True by auto
    from Cons.IH [OF this] show ?thesis
      using assign_mean_ok [OF assms(1,2) i True, of a b g] ab by simp
  next
    case False
    then have "int n \<le> i" by simp
    from assign_mean_beyond [OF assms(1,2) this, of a b g] show ?thesis
      using ab by auto
  qed
qed

lemma loop_elems_at:
  assumes "\<forall>i\<in>set indices. 0 \<le> i"
  shows "loop_elems bounds f d n indices g ix =
     (if int (ix d) \<in> set indices
      then window_mean f d n (fst (bounds (int (ix d)))) (snd (bounds (int (ix d)))) ix
      else g ix)"
  using assms unfolding loop_elems_def
proof (induction indices arbitrary: g)
  case Nil
  show ?case by simp
next
  case (Cons i indices)
  have "ix d = nat i \<longleftrightarrow> i = int (ix d)" using Cons.prems by auto
  with Cons show ?case by (auto simp add: split_beta)
qed

lemma set_py_range: "set (py_range a b) = {i. a \<le> i \<and> i < b}"
  by (auto simp add: py_range_def)

lemma start_loop_writes:
  assumes "variable < length s" "extent (s ! variable) d = Some n" "hr \<le> int n"
  shows "start_loop variable (length s) d hr (s @ [(s ! variable)\<lparr>var_elems := g\<rparr>]) =
    (Inr (), s @ [(s ! variable)\<lparr>var_elems :=
       loop_elems (start_slice hr) (var_elems (s ! variable)) d n (py_range 0 hr) g\<rparr>])"
  unfolding start_loop_def
  by (rule for_loop_writes [OF assms(1,2)]) (use assms(3) in \<open>auto simp add: set_py_range\<close>)

lemma main_loop_writes:
  assumes "variable < length s" "extent (s ! variable) d = Some n" "0 \<le> hr"
  shows "main_loop variable (length s) d (int n) hr (s @ [(s ! variable)\<lparr>var_elems := g\<rparr>]) =
    (Inr (), s @ [(s ! variable)\<lparr>var_elems :=
       loop_elems (main_slice hr) (var_elems (s ! variable)) d n (py_range hr (int n - hr)) g\<rparr>])"
  unfolding main_loop_def
  by (rule for_loop_writes [OF assms(1,2)]) (use assms(3) in \<open>auto simp add: set_py_range\<close>)

lemma end_loop_writes:
  assumes "variable < length s" "extent (s ! variable) d = Some n" "hr \<le> int n"
  shows "end_loop variable (length s) d (int n) hr (s @ [(s ! variable)\<lparr>var_elems := g\<rparr>]) =
    (Inr (), s @ [(s ! variable)\<lparr>var_elems :=
       loop_elems (end_slice (int n) hr) (var_elems (s ! variable)) d n (py_range (int n - hr) (int n)) g\<rparr>])"
  unfolding end_loop_def
  by (rule for_loop_writes [OF assms(1,2)]) (use assms(3) in \<open>auto simp add: set_py_range\<close>)

lemma start_loop_raises:
  assumes "variable < length s" "extent (s ! variable) d = Some n" "int n < hr"
  shows "\<exists>g'. start_loop variable (length s) d hr (s @ [(s ! variable)\<lparr>var_elems := g\<rparr>]) =
    (Inl IndexError, s @ [(s ! variable)\<lparr>var_elems := g'\<rparr>])"
  unfolding start_loop_def
  by (rule for_loop_raises [OF assms(1,2)])
     (use assms(3) in \<open>auto simp add: set_py_range intro: exI [of _ "int n"]\<close>)

section \<open>What a call returns\<close>

lemma three_loops_elems:
  assumes "0 \<le> hr" "hr \<le> int n"
  shows "loop_elems (end_slice (int n) hr) f d n (py_range (int n - hr) (int n))
           (loop_elems (main_slice hr) f d n (py_range hr (int n - hr))
              (loop_elems (start_slice hr) f d n (py_range 0 hr) f)) = smoothed f d n hr"
proof
  fix ix
  show "loop_elems (end_slice (int n) hr) f d n (py_range (int n - hr) (int n))
           (loop_elems (main_slice hr) f d n (py_range hr (int n - hr))
              (loop_elems (start_slice hr) f d n (py_range 0 hr) f)) ix = smoothed f d n hr ix"
    using assms
    by (auto simp add: smoothed_def loop_elems_at set_py_range
        start_slice_def main_slice_def end_slice_def Let_def)
qed

text \<open>
  A call with a dimension of the variable, a window of 3 or more and at least
  \<open>NPoints div 2\<close> values along the dimension, on a variable whose outermost dimension
  has the extent of that dimension, returns a new object that holds \<open>smoothed\<close>. With fewer
  values the start loop reaches an index beyond the extent and the call raises; with a
  dimension that the variable does not have, the first slice raises.
\<close>

lemma smoothdata_returns:
  assumes "variable < length s" "extent (s ! variable) d = Some n"
    and "len_values (s ! variable) = Inr (int n)" "3 \<le> NPoints" "NPoints div 2 \<le> int n"
  shows "smoothdata variable (Some d) NPoints s =
    (Inr (length s),
     s @ [(s ! variable)\<lparr>var_elems := smoothed (var_elems (s ! variable)) d n (NPoints div 2)\<rparr>])"
proof -
  let ?f = "var_elems (s ! variable)"
  let ?hr = "NPoints div 2"
  let ?V = "s ! variable"
  have hr: "0 \<le> ?hr" "?hr \<le> int n" using assms by simp_all
  have s0: "s @ [?V] = s @ [?V\<lparr>var_elems := ?f\<rparr>]" by simp
  let ?g1 = "loop_elems (start_slice ?hr) ?f d n (py_range 0 ?hr) ?f"
  let ?g2 = "loop_elems (main_slice ?hr) ?f d n (py_range ?hr (int n - ?hr)) ?g1"
  let ?g3 = "loop_elems (end_slice (int n) ?hr) ?f d n (py_range (int n - ?hr) (int n)) ?g2"
  have l1: "start_loop variable (length s) d ?hr (s @ [?V]) = (Inr (), s @ [?V\<lparr>var_elems := ?g1\<rparr>])"
    by (subst s0) (rule start_loop_writes [OF assms(1,2) hr(2)])
  have l2: "main_loop variable (length s) d (int n) ?hr (s @ [?V\<lparr>var_elems := ?g1\<rparr>]) =
      (Inr (), s @ [?V\<lparr>var_elems := ?g2\<rparr>])"
    by (rule main_loop_writes [OF assms(1,2) hr(1)])
  have l3: "end_loop variable (length s) d (int n) ?hr (s @ [?V\<lparr>var_elems := ?g2\<rparr>]) =
      (Inr (), s @ [?V\<lparr>var_elems := ?g3\<rparr>])"
    by (rule end_loop_writes [OF assms(1,2) hr(2)])
  have g3: "?g3 = smoothed ?f d n ?hr" by (rule three_loops_elems [OF hr])
  obtain whole where w: "getitem_slice ?V d None None = Inr whole" "len_values whole = Inr (int n)"
    using len_values_whole [OF assms(2)] assms(3) by auto
  show ?thesis
    using assms(4) w l1 l2 l3 g3
    by (simp add: smoothdata_def copy_def)
qed

lemma smoothdata_raises:
  assumes "variable < length s" "extent (s ! variable) d = Some n" "3 \<le> NPoints"
    and "int n < NPoints div 2"
  shows "\<exists>g. smoothdata variable (Some d) NPoints s =
    (Inl IndexError, s @ [(s ! variable)\<lparr>var_elems := g\<rparr>])"
proof -
  let ?V = "s ! variable"
  have s0: "s @ [?V] = s @ [?V\<lparr>var_elems := var_elems ?V\<rparr>]" by simp
  have "\<exists>g. start_loop variable (length s) d (NPoints div 2) (s @ [?V]) =
      (Inl IndexError, s @ [?V\<lparr>var_elems := g\<rparr>])"
    by (subst s0) (rule start_loop_raises [OF assms(1,2,4)])
  moreover obtain whole L where "getitem_slice ?V d None None = Inr whole" "len_values whole = Inr L"
    using len_values_whole [OF assms(2)] assms(2)
    by (cases "var_dims ?V") (auto simp add: len_values_def extent_def)
  ultimately show ?thesis
    using assms(3) by (auto simp add: smoothdata_def copy_def)
qed

lemma smoothdata_wrong_dim:
  assumes "extent (s ! variable) d = None" "3 \<le> NPoints"
  shows "smoothdata variable (Some d) NPoints s = (Inl DimensionError, s)"
  using assms by (simp add: smoothdata_def getitem_slice_wrong_dim)

section \<open>The errors and the store of a call\<close>

text \<open>
  The container raises its own errors: a wrong dimension, an index out of range, and the
  length of an array without dimensions. The loops raise nothing else.
\<close>

lemma assign_mean_no_ValueError:
  "fst (assign_mean variable out d index a b s) \<noteq> Inl (ValueError msg)"
  by (auto simp add: assign_mean_def mean_slice_def getitem_slice_def mean_def setitem_def Let_def
      split: sum.splits if_splits option.splits)

lemma for_loop_no_ValueError:
  assumes "\<And>index s. fst (body index s) \<noteq> Inl (ValueError msg)"
  shows "fst (for_loop indices body s) \<noteq> Inl (ValueError msg)"
proof (induction indices arbitrary: s)
  case Nil
  show ?case by simp
next
  case (Cons i indices)
  show ?case
  proof (cases "body i s")
    case (Pair r s')
    with assms [of i s] Cons.IH [of s'] show ?thesis
      by (cases r) auto
  qed
qed

lemma loops_no_ValueError:
  "fst (start_loop variable out d hr s) \<noteq> Inl (ValueError msg)"
  "fst (main_loop variable out d n hr s) \<noteq> Inl (ValueError msg)"
  "fst (end_loop variable out d n hr s) \<noteq> Inl (ValueError msg)"
  unfolding start_loop_def main_loop_def end_loop_def
  by (rule for_loop_no_ValueError, simp add: split_beta assign_mean_no_ValueError)+

lemma smoothdata_no_ValueError:
  assumes "3 \<le> NPoints"
  shows "fst (smoothdata variable (Some d) NPoints s) \<noteq> Inl (ValueError msg)"
proof (cases "getitem_slice (s ! variable) d None None")
  case (Inl e)
  then have "e = DimensionError" by (auto simp add: getitem_slice_def split: option.splits)
  with Inl assms show ?thesis by (simp add: smoothdata_def)
next
  case (Inr whole)
  show ?thesis
  proof (cases "len_values whole")
    case (Inl e)
    then have "e = TypeError" by (auto simp add: len_values_def split: list.splits)
    with Inl Inr assms show ?thesis by (simp add: smoothdata_def)
  next
    case len: (Inr data_length)
    let ?hr = "NPoints div 2"
    let ?out = "length s" and ?s0 = "s @ [s ! variable]"
    obtain r1 s1 where l1: "start_loop variable ?out d ?hr ?s0 = (r1, s1)" by fastforce
    obtain r2 s2 where l2: "main_loop variable ?out d data_length ?hr s1 = (r2, s2)" by fastforce
    obtain r3 s3 where l3: "end_loop variable ?out d data_length ?hr s2 = (r3, s3)" by fastforce
    have "r1 \<noteq> Inl (ValueError msg)" "r2 \<noteq> Inl (ValueError msg)" "r3 \<noteq> Inl (ValueError msg)"
      using loops_no_ValueError(1) [of variable ?out d ?hr ?s0 msg]
        loops_no_ValueError(2) [of variable ?out d data_length ?hr s1 msg]
        loops_no_ValueError(3) [of variable ?out d data_length ?hr s2 msg] l1 l2 l3 by simp_all
    then show ?thesis
      using Inr len assms l1 l2 l3
      by (auto simp add: smoothdata_def copy_def Let_def split: sum.splits)
  qed
qed

text \<open>
  Whatever the statement, the loop and the call do, the objects of the caller's store are
  as they were, and the copy has the dimensions of the input.
\<close>

lemma assign_mean_store:
  "\<exists>r g'. assign_mean variable (length s) d index a b (s @ [V\<lparr>var_elems := g\<rparr>]) =
     (r, s @ [V\<lparr>var_elems := g'\<rparr>])"
proof (cases "mean_slice ((s @ [V\<lparr>var_elems := g\<rparr>]) ! variable) d a b")
  case (Inl e)
  then have "assign_mean variable (length s) d index a b (s @ [V\<lparr>var_elems := g\<rparr>]) =
      (Inl e, s @ [V\<lparr>var_elems := g\<rparr>])"
    by (simp add: assign_mean_def)
  then show ?thesis by blast
next
  case m: (Inr m)
  show ?thesis
  proof (cases "setitem (V\<lparr>var_elems := g\<rparr>) d index m")
    case (Inl e)
    with m have "assign_mean variable (length s) d index a b (s @ [V\<lparr>var_elems := g\<rparr>]) =
        (Inl e, s @ [V\<lparr>var_elems := g\<rparr>])"
      by (simp add: assign_mean_def)
    then show ?thesis by blast
  next
    case (Inr out')
    then obtain g' where "out' = V\<lparr>var_elems := g'\<rparr>"
      by (auto simp add: setitem_def split: option.splits if_splits)
    with m Inr have "assign_mean variable (length s) d index a b (s @ [V\<lparr>var_elems := g\<rparr>]) =
        (Inr (), s @ [V\<lparr>var_elems := g'\<rparr>])"
      by (simp add: assign_mean_def)
    then show ?thesis by blast
  qed
qed

lemma for_loop_store:
  assumes "\<And>index g. \<exists>r g'. body index (s @ [V\<lparr>var_elems := g\<rparr>]) = (r, s @ [V\<lparr>var_elems := g'\<rparr>])"
  shows "\<exists>r g'. for_loop indices body (s @ [V\<lparr>var_elems := g\<rparr>]) = (r, s @ [V\<lparr>var_elems := g'\<rparr>])"
proof (induction indices arbitrary: g)
  case Nil
  have "for_loop [] body (s @ [V\<lparr>var_elems := g\<rparr>]) = (Inr (), s @ [V\<lparr>var_elems := g\<rparr>])"
    by simp
  then show ?case by blast
next
  case (Cons i indices)
  obtain r g1 where b: "body i (s @ [V\<lparr>var_elems := g\<rparr>]) = (r, s @ [V\<lparr>var_elems := g1\<rparr>])"
    using assms [of i g] by blast
  show ?case
  proof (cases r)
    case (Inl e)
    with b show ?thesis by auto
  next
    case (Inr u)
    with b Cons.IH [of g1] show ?thesis by auto
  qed
qed

lemma loops_store:
  "\<exists>r g'. start_loop variable (length s) d hr (s @ [V\<lparr>var_elems := g\<rparr>]) = (r, s @ [V\<lparr>var_elems := g'\<rparr>])"
  "\<exists>r g'. main_loop variable (length s) d n hr (s @ [V\<lparr>var_elems := g\<rparr>]) = (r, s @ [V\<lparr>var_elems := g'\<rparr>])"
  "\<exists>r g'. end_loop variable (length s) d n hr (s @ [V\<lparr>var_elems := g\<rparr>]) = (r, s @ [V\<lparr>var_elems := g'\<rparr>])"
  unfolding start_loop_def main_loop_def end_loop_def
  by (rule for_loop_store, simp add: split_beta assign_mean_store)+

lemma smoothdata_store:
  "(\<exists>e. smoothdata variable dim' NPoints s = (Inl e, s)) \<or>
   (\<exists>e g. smoothdata variable dim' NPoints s = (Inl e, s @ [(s ! variable)\<lparr>var_elems := g\<rparr>])) \<or>
   (\<exists>g. smoothdata variable dim' NPoints s = (Inr (length s), s @ [(s ! variable)\<lparr>var_elems := g\<rparr>]))"
proof (cases dim')
  case None
  then show ?thesis by (simp add: smoothdata_def)
next
  case (Some d)
  let ?V = "s ! variable" and ?hr = "NPoints div 2"
  show ?thesis
  proof (cases "NPoints < 3")
    case True
    with Some show ?thesis by (simp add: smoothdata_def)
  next
    case n3: False
    show ?thesis
    proof (cases "getitem_slice ?V d None None")
      case (Inl e)
      with Some n3 show ?thesis by (simp add: smoothdata_def)
    next
      case (Inr whole)
      show ?thesis
      proof (cases "len_values whole")
        case (Inl e)
        with Some n3 Inr show ?thesis by (simp add: smoothdata_def)
      next
        case len: (Inr L)
        have s0: "s @ [?V] = s @ [?V\<lparr>var_elems := var_elems ?V\<rparr>]" by simp
        obtain r1 g1 where l1: "start_loop variable (length s) d ?hr (s @ [?V]) =
            (r1, s @ [?V\<lparr>var_elems := g1\<rparr>])"
          using loops_store(1) [where V = ?V and g = "var_elems ?V" and s = s and variable = variable
              and d = d and hr = ?hr] by auto
        obtain r2 g2 where l2: "main_loop variable (length s) d L ?hr (s @ [?V\<lparr>var_elems := g1\<rparr>]) =
            (r2, s @ [?V\<lparr>var_elems := g2\<rparr>])"
          using loops_store(2) [where V = ?V and g = g1 and s = s] by blast
        obtain r3 g3 where l3: "end_loop variable (length s) d L ?hr (s @ [?V\<lparr>var_elems := g2\<rparr>]) =
            (r3, s @ [?V\<lparr>var_elems := g3\<rparr>])"
          using loops_store(3) [where V = ?V and g = g2 and s = s] by blast
        show ?thesis
        proof (cases r1)
          case (Inl e)
          with Some n3 Inr len l1 show ?thesis by (auto simp add: smoothdata_def copy_def)
        next
          case r1: (Inr u1)
          show ?thesis
          proof (cases r2)
            case (Inl e)
            with Some n3 Inr len l1 r1 l2 show ?thesis by (auto simp add: smoothdata_def copy_def)
          next
            case r2: (Inr u2)
            show ?thesis
            proof (cases r3)
              case (Inl e)
              with Some n3 Inr len l1 r1 l2 r2 l3 show ?thesis
                by (auto simp add: smoothdata_def copy_def)
            next
              case r3: (Inr u3)
              with Some n3 Inr len l1 r1 l2 r2 l3 show ?thesis
                by (auto simp add: smoothdata_def copy_def)
            qed
          qed
        qed
      qed
    qed
  qed
qed

text \<open>What a call has done when it returns, and what is left of the store in any case.\<close>

lemma smoothdata_InrD:
  assumes "smoothdata variable dim' NPoints s = (Inr out, s')"
  shows "out = length s \<and> (\<exists>g. s' = s @ [(s ! variable)\<lparr>var_elems := g\<rparr>])"
  using smoothdata_store [of variable dim' NPoints s] assms by auto

lemma smoothdata_keeps_store:
  "take (length s) (snd (smoothdata variable dim' NPoints s)) = s"
  using smoothdata_store [of variable dim' NPoints s] by auto

section \<open>The log of the slices\<close>

text \<open>
  The log changes nothing of a run: dropping it gives the loop and the function.
\<close>

lemma for_loop_log_result:
  "fst (for_loop_log indices bounds stmt s taken) =
     for_loop indices (\<lambda>index. case bounds index of (a, b) \<Rightarrow> stmt index a b) s"
proof (induction indices arbitrary: s taken)
  case Nil
  show ?case by simp
next
  case (Cons i indices)
  obtain a b where ab: "bounds i = (a, b)" by (cases "bounds i")
  obtain r s' where st: "stmt i a b s = (r, s')" by (cases "stmt i a b s")
  show ?case using ab st Cons.IH by (cases r) simp_all
qed

lemma loops_log_result:
  "fst (for_loop_log (py_range 0 hr) (start_slice hr) (assign_mean variable out d) s taken) =
     start_loop variable out d hr s"
  "fst (for_loop_log (py_range hr (data_length - hr)) (main_slice hr) (assign_mean variable out d) s taken) =
     main_loop variable out d data_length hr s"
  "fst (for_loop_log (py_range (data_length - hr) data_length) (end_slice data_length hr)
          (assign_mean variable out d) s taken) =
     end_loop variable out d data_length hr s"
  by (simp_all add: for_loop_log_result start_loop_def main_loop_def end_loop_def)

lemma smoothdata_log_result:
  "fst (smoothdata_log variable dim' NPoints s) = smoothdata variable dim' NPoints s"
proof (cases dim')
  case None
  then show ?thesis by (simp add: smoothdata_log_def smoothdata_def)
next
  case (Some d)
  show ?thesis
  proof (cases "NPoints < 3")
    case True
    with Some show ?thesis by (simp add: smoothdata_log_def smoothdata_def)
  next
    case n3: False
    show ?thesis
    proof (cases "getitem_slice (s ! variable) d None None")
      case (Inl e)
      with Some n3 show ?thesis by (simp add: smoothdata_log_def smoothdata_def)
    next
      case (Inr whole)
      show ?thesis
      proof (cases "len_values whole")
        case (Inl e)
        with Some n3 Inr show ?thesis by (simp add: smoothdata_log_def smoothdata_def)
      next
        case len: (Inr L)
        let ?hr = "NPoints div 2" and ?out = "length s" and ?s0 = "s @ [s ! variable]"
        let ?stmt = "assign_mean variable ?out d"
        obtain r1 s1 log1 where l1:
          "for_loop_log (py_range 0 ?hr) (start_slice ?hr) ?stmt ?s0 [] = ((r1, s1), log1)"
          by (metis surj_pair)
        obtain r2 s2 log2 where l2:
          "for_loop_log (py_range ?hr (L - ?hr)) (main_slice ?hr) ?stmt s1 log1 = ((r2, s2), log2)"
          by (metis surj_pair)
        obtain r3 s3 log3 where l3:
          "for_loop_log (py_range (L - ?hr) L) (end_slice L ?hr) ?stmt s2 log2 = ((r3, s3), log3)"
          by (metis surj_pair)
        have e1: "start_loop variable ?out d ?hr ?s0 = (r1, s1)"
          using loops_log_result(1) [of ?hr variable ?out d ?s0 "[]"] l1 by simp
        have e2: "main_loop variable ?out d L ?hr s1 = (r2, s2)"
          using loops_log_result(2) [of ?hr L variable ?out d s1 log1] l2 by simp
        have e3: "end_loop variable ?out d L ?hr s2 = (r3, s3)"
          using loops_log_result(3) [of L ?hr variable ?out d s2 log2] l3 by simp
        have unfold_log: "smoothdata_log variable dim' NPoints s =
            (case r1 of Inl e \<Rightarrow> ((Inl e, s1), log1)
             | Inr u \<Rightarrow> (case r2 of Inl e \<Rightarrow> ((Inl e, s2), log2)
                | Inr u \<Rightarrow> (case r3 of Inl e \<Rightarrow> ((Inl e, s3), log3)
                   | Inr u \<Rightarrow> ((Inr ?out, s3), log3))))"
          using Some n3 Inr len l1 l2 l3
          by (simp add: smoothdata_log_def copy_def Let_def split: sum.splits)
        have unfold_plain: "smoothdata variable dim' NPoints s =
            (case r1 of Inl e \<Rightarrow> (Inl e, s1)
             | Inr u \<Rightarrow> (case r2 of Inl e \<Rightarrow> (Inl e, s2)
                | Inr u \<Rightarrow> (case r3 of Inl e \<Rightarrow> (Inl e, s3)
                   | Inr u \<Rightarrow> (Inr ?out, s3))))"
          using Some n3 Inr len e1 e2 e3
          by (simp add: smoothdata_def copy_def Let_def split: sum.splits)
        show ?thesis
          unfolding unfold_log unfold_plain by (simp split: sum.splits)
      qed
    qed
  qed
qed

text \<open>
  A loop that returns has taken the slice of each of its indices, in their order. A loop
  that raises has taken the slices up to the index at which it raises, and no more.
\<close>

lemma for_loop_log_returns:
  assumes "for_loop indices (\<lambda>index. case bounds index of (a, b) \<Rightarrow> stmt index a b) s = (Inr (), s')"
  shows "for_loop_log indices bounds stmt s taken = ((Inr (), s'), taken @ map bounds indices)"
  using assms
proof (induction indices arbitrary: s taken)
  case Nil
  then show ?case by simp
next
  case (Cons i indices)
  obtain a b where ab: "bounds i = (a, b)" by (cases "bounds i")
  obtain r s1 where st: "stmt i a b s = (r, s1)" by (cases "stmt i a b s")
  show ?case
  proof (cases r)
    case (Inl e)
    with Cons.prems ab st show ?thesis by simp
  next
    case (Inr u)
    with Cons.prems ab st have "for_loop indices (\<lambda>index. case bounds index of (a, b) \<Rightarrow> stmt index a b) s1 =
        (Inr (), s')" by simp
    from Cons.IH [OF this, of "taken @ [(a, b)]"] Inr ab st show ?thesis by simp
  qed
qed

lemma for_loop_log_raises:
  assumes "for_loop before (\<lambda>index. case bounds index of (a, b) \<Rightarrow> stmt index a b) s = (Inr (), s')"
    and "stmt index (fst (bounds index)) (snd (bounds index)) s' = (Inl e, s'')"
  shows "for_loop_log (before @ index # rest) bounds stmt s taken =
    ((Inl e, s''), taken @ map bounds (before @ [index]))"
  using assms(1)
proof (induction before arbitrary: s taken)
  case Nil
  then show ?case using assms(2) by (simp add: split_beta)
next
  case (Cons i before)
  obtain a b where ab: "bounds i = (a, b)" by (cases "bounds i")
  obtain r s1 where st: "stmt i a b s = (r, s1)" by (cases "stmt i a b s")
  show ?case
  proof (cases r)
    case (Inl e')
    with Cons.prems ab st show ?thesis by simp
  next
    case (Inr u)
    with Cons.prems ab st have "for_loop before (\<lambda>index. case bounds index of (a, b) \<Rightarrow> stmt index a b) s1 =
        (Inr (), s')" by simp
    from Cons.IH [OF this, of "taken @ [(a, b)]"] Inr ab st show ?thesis by simp
  qed
qed

text \<open>
  The log of a call that returns is \<open>slices_taken\<close>: the slices of the three loops, each
  over its whole range.
\<close>

lemma smoothdata_log_returns:
  assumes "variable < length s" "extent (s ! variable) d = Some n"
    and "len_values (s ! variable) = Inr (int n)" "3 \<le> NPoints" "NPoints div 2 \<le> int n"
  shows "smoothdata_log variable (Some d) NPoints s =
    ((Inr (length s),
      s @ [(s ! variable)\<lparr>var_elems := smoothed (var_elems (s ! variable)) d n (NPoints div 2)\<rparr>]),
     slices_taken (int n) (NPoints div 2))"
proof -
  let ?f = "var_elems (s ! variable)"
  let ?hr = "NPoints div 2"
  let ?V = "s ! variable"
  let ?stmt = "assign_mean variable (length s) d"
  have hr: "0 \<le> ?hr" "?hr \<le> int n" using assms by simp_all
  have s0: "s @ [?V] = s @ [?V\<lparr>var_elems := ?f\<rparr>]" by simp
  let ?g1 = "loop_elems (start_slice ?hr) ?f d n (py_range 0 ?hr) ?f"
  let ?g2 = "loop_elems (main_slice ?hr) ?f d n (py_range ?hr (int n - ?hr)) ?g1"
  let ?g3 = "loop_elems (end_slice (int n) ?hr) ?f d n (py_range (int n - ?hr) (int n)) ?g2"
  have l1: "start_loop variable (length s) d ?hr (s @ [?V]) = (Inr (), s @ [?V\<lparr>var_elems := ?g1\<rparr>])"
    by (subst s0) (rule start_loop_writes [OF assms(1,2) hr(2)])
  have l2: "main_loop variable (length s) d (int n) ?hr (s @ [?V\<lparr>var_elems := ?g1\<rparr>]) =
      (Inr (), s @ [?V\<lparr>var_elems := ?g2\<rparr>])"
    by (rule main_loop_writes [OF assms(1,2) hr(1)])
  have l3: "end_loop variable (length s) d (int n) ?hr (s @ [?V\<lparr>var_elems := ?g2\<rparr>]) =
      (Inr (), s @ [?V\<lparr>var_elems := ?g3\<rparr>])"
    by (rule end_loop_writes [OF assms(1,2) hr(2)])
  have g3: "?g3 = smoothed ?f d n ?hr" by (rule three_loops_elems [OF hr])
  have t1: "for_loop_log (py_range 0 ?hr) (start_slice ?hr) ?stmt (s @ [?V]) [] =
      ((Inr (), s @ [?V\<lparr>var_elems := ?g1\<rparr>]), [] @ map (start_slice ?hr) (py_range 0 ?hr))"
    by (rule for_loop_log_returns) (use l1 in \<open>simp add: start_loop_def\<close>)
  have t2: "for_loop_log (py_range ?hr (int n - ?hr)) (main_slice ?hr) ?stmt
        (s @ [?V\<lparr>var_elems := ?g1\<rparr>]) (map (start_slice ?hr) (py_range 0 ?hr)) =
      ((Inr (), s @ [?V\<lparr>var_elems := ?g2\<rparr>]),
       map (start_slice ?hr) (py_range 0 ?hr) @ map (main_slice ?hr) (py_range ?hr (int n - ?hr)))"
    by (rule for_loop_log_returns) (use l2 in \<open>simp add: main_loop_def\<close>)
  have t3: "for_loop_log (py_range (int n - ?hr) (int n)) (end_slice (int n) ?hr) ?stmt
        (s @ [?V\<lparr>var_elems := ?g2\<rparr>])
        (map (start_slice ?hr) (py_range 0 ?hr) @ map (main_slice ?hr) (py_range ?hr (int n - ?hr))) =
      ((Inr (), s @ [?V\<lparr>var_elems := ?g3\<rparr>]),
       (map (start_slice ?hr) (py_range 0 ?hr) @ map (main_slice ?hr) (py_range ?hr (int n - ?hr))) @
       map (end_slice (int n) ?hr) (py_range (int n - ?hr) (int n)))"
    by (rule for_loop_log_returns) (use l3 in \<open>simp add: end_loop_def\<close>)
  obtain whole where w: "getitem_slice ?V d None None = Inr whole" "len_values whole = Inr (int n)"
    using len_values_whole [OF assms(2)] assms(3) by auto
  show ?thesis
    using assms(4) w t1 t2 t3 g3
    by (simp add: smoothdata_log_def copy_def slices_taken_def Let_def)
qed

text \<open>
  With fewer than \<open>NPoints div 2\<close> values the start loop takes the slices of the indices
  \<open>0, ..., n\<close> and raises at index \<open>n\<close>; the main loop and the end loop take none.
\<close>

lemma smoothdata_log_raises:
  assumes "variable < length s" "extent (s ! variable) d = Some n" "3 \<le> NPoints"
    and "int n < NPoints div 2"
  shows "fst (fst (smoothdata_log variable (Some d) NPoints s)) = Inl IndexError \<and>
    snd (smoothdata_log variable (Some d) NPoints s) =
      map (start_slice (NPoints div 2)) (py_range 0 (int n + 1))"
proof -
  let ?f = "var_elems (s ! variable)"
  let ?hr = "NPoints div 2"
  let ?V = "s ! variable"
  let ?stmt = "assign_mean variable (length s) d"
  let ?g = "loop_elems (start_slice ?hr) ?f d n (py_range 0 (int n)) ?f"
  have s0: "s @ [?V] = s @ [?V\<lparr>var_elems := ?f\<rparr>]" by simp
  have split: "py_range 0 ?hr = py_range 0 (int n) @ int n # py_range (int n + 1) ?hr"
    using assms(4) upto_split3 [of 0 "int n" "?hr - 1"] by (simp add: py_range_def)
  have before: "for_loop (py_range 0 (int n))
        (\<lambda>index. case start_slice ?hr index of (a, b) \<Rightarrow> ?stmt index a b) (s @ [?V]) =
      (Inr (), s @ [?V\<lparr>var_elems := ?g\<rparr>])"
    by (subst s0) (rule for_loop_writes [OF assms(1,2)], auto simp add: set_py_range)
  have at: "?stmt (int n) (fst (start_slice ?hr (int n))) (snd (start_slice ?hr (int n)))
        (s @ [?V\<lparr>var_elems := ?g\<rparr>]) = (Inl IndexError, s @ [?V\<lparr>var_elems := ?g\<rparr>])"
    by (rule assign_mean_beyond [OF assms(1,2)]) simp
  have t: "for_loop_log (py_range 0 ?hr) (start_slice ?hr) ?stmt (s @ [?V]) [] =
      ((Inl IndexError, s @ [?V\<lparr>var_elems := ?g\<rparr>]),
       [] @ map (start_slice ?hr) (py_range 0 (int n) @ [int n]))"
    unfolding split by (rule for_loop_log_raises [OF before at])
  have upto: "py_range 0 (int n) @ [int n] = py_range 0 (int n + 1)"
    unfolding py_range_def by (simp add: upto_rec2)
  obtain whole L where w: "getitem_slice ?V d None None = Inr whole" "len_values whole = Inr L"
    using len_values_whole [OF assms(2)] assms(2)
    by (cases "var_dims ?V") (auto simp add: len_values_def extent_def)
  show ?thesis
    using assms(3) w t upto
    by (simp add: smoothdata_log_def copy_def Let_def)
qed

section \<open>The value at an index of the output\<close>

text \<open>
  A variable whose outermost dimension is \<open>d\<close> has its length along \<open>d\<close> as the length of
  its values; so has every variable of one dimension.
\<close>

lemma outermost_dim:
  assumes "var_dims v = (d, n) # ds"
  shows "extent v d = Some n \<and> len_values v = Inr (int n)"
  using assms by (simp add: extent_def len_values_def)

lemma of_list_dim: "extent (of_list d xs) d = Some (length xs) \<and> len_values (of_list d xs) = Inr (int (length xs))"
  by (simp add: of_list_def extent_def len_values_def)

text \<open>
  \<^verbatim>\<open>out[dim, i]\<close> is \<^verbatim>\<open>sc.mean(variable[dim, a:b], dim)\<close> when the elements of the output
  at \<open>i\<close> are the means of that slice.
\<close>

lemma output_at:
  assumes "extent V d = Some n" "0 \<le> i" "i < int n"
    and "\<And>ix. g (ix(d := nat i)) = window_mean (var_elems V) d n a b ix"
  shows "getitem_index (V\<lparr>var_elems := g\<rparr>) d i = mean_slice V d a b"
  using assms by (simp add: getitem_index_ok mean_slice_eq)

lemma same_at:
  assumes "extent V d = Some n" "0 \<le> i" "i < int n"
    and "\<And>ix. g (ix(d := nat i)) = g' (ix(d := nat i))"
  shows "getitem_index (V\<lparr>var_elems := g\<rparr>) d i = getitem_index (V\<lparr>var_elems := g'\<rparr>) d i"
  using assms by (simp add: getitem_index_ok)

lemma smoothed_start:
  assumes "0 \<le> i" "i < hr" "i < int n - hr"
  shows "smoothed f d n hr (ix(d := nat i)) = window_mean f d n 0 (i + hr + 1) ix"
  using assms by (simp add: smoothed_def Let_def)

lemma smoothed_main:
  assumes "0 \<le> hr" "hr \<le> i" "i < int n - hr"
  shows "smoothed f d n hr (ix(d := nat i)) = window_mean f d n (i - hr) (i + hr + 1) ix"
  using assms by (simp add: smoothed_def Let_def)

lemma smoothed_end:
  assumes "0 \<le> i" "int n - hr \<le> i" "i < int n"
  shows "smoothed f d n hr (ix(d := nat i)) = window_mean f d n (i - hr) (int n) ix"
  using assms by (simp add: smoothed_def Let_def)

section \<open>The claims\<close>

text \<open>
  In the theorems below \<open>s\<close> is the caller's store, \<open>variable\<close> a reference into it, \<open>n\<close>
  the length of the variable along the dimension \<open>d\<close> and \<open>hr\<close> the half range
  \<open>NPoints div 2\<close>. The output value at \<open>i\<close> along \<open>d\<close> is \<open>getitem_index (s' ! out) d i\<close>,
  for the reference \<open>out\<close> and the store \<open>s'\<close> that the call returns; its elements are the
  elements of the output at the coordinates \<open>ix(d := nat i)\<close>.

  The function takes \<^verbatim>\<open>len(variable[dim, :].values)\<close> for the length along \<^verbatim>\<open>dim\<close>. This
  is the length of the outermost dimension. Where a theorem assumes
  \<open>len_values (s ! variable) = Inr (int n)\<close> it is about the variables for which the two
  agree: those of one dimension, and those whose outermost dimension is \<open>d\<close> or is as long
  as \<open>d\<close>. What the function does with the others is shown under C3.
\<close>

subsection \<open>C1: the interior window\<close>

text \<open>
  C1, as amended. For every call with a dimension \<open>d\<close> of the variable, \<open>NPoints \<ge> 3\<close> and
  \<^verbatim>\<open>data_length\<close> the length \<open>n\<close> along \<open>d\<close>, and every interior index \<open>i\<close> with
  \<open>hr \<le> i < n - hr\<close>: the call returns, and the output value at \<open>i\<close> is
  \<open>mean(variable[dim, i - hr : i + hr + 1], dim)\<close>, the arithmetic mean of the input values
  at the positions \<open>i - hr, ..., i + hr\<close>. This full window is centred on \<open>i\<close> and holds
  \<open>2 * hr + 1\<close> values: \<open>NPoints\<close> of them when \<open>NPoints\<close> is odd, \<open>NPoints + 1\<close> when it is
  even.
\<close>

theorem interior_window:
  assumes "variable < length s" and "extent (s ! variable) d = Some n"
    and "len_values (s ! variable) = Inr (int n)" and "3 \<le> NPoints"
    and "hr = NPoints div 2" and "hr \<le> i" and "i < int n - hr"
  shows "\<exists>out s'. smoothdata variable (Some d) NPoints s = (Inr out, s') \<and>
           getitem_index (s' ! out) d i = mean_slice (s ! variable) d (i - hr) (i + hr + 1) \<and>
           (\<forall>ix. var_elems (s' ! out) (ix(d := nat i)) =
              mean_over (var_elems (s ! variable)) d [nat (i - hr)..<nat (i + hr + 1)] ix) \<and>
           int (length [nat (i - hr)..<nat (i + hr + 1)]) = (if odd NPoints then NPoints else NPoints + 1)"
proof -
  let ?V = "s ! variable"
  let ?g = "smoothed (var_elems ?V) d n hr"
  have hr: "1 \<le> hr" using assms(4,5) by simp
  have i: "0 \<le> i" "i < int n" using assms(6,7) hr by simp_all
  have ret: "smoothdata variable (Some d) NPoints s = (Inr (length s), s @ [?V\<lparr>var_elems := ?g\<rparr>])"
    unfolding assms(5)
    by (rule smoothdata_returns [OF assms(1,2,3,4)]) (use assms(5,6,7) in simp)
  have cell: "?g (ix(d := nat i)) = window_mean (var_elems ?V) d n (i - hr) (i + hr + 1) ix" for ix
    by (rule smoothed_main) (use hr assms(6,7) in simp_all)
  have out: "getitem_index (?V\<lparr>var_elems := ?g\<rparr>) d i = mean_slice ?V d (i - hr) (i + hr + 1)"
    by (rule output_at [OF assms(2) i cell])
  have win: "window_mean (var_elems ?V) d n (i - hr) (i + hr + 1) ix =
      mean_over (var_elems ?V) d [nat (i - hr)..<nat (i + hr + 1)] ix" for ix
    by (rule window_mean_in_range) (use assms(6,7) hr in simp_all)
  have width: "int (length [nat (i - hr)..<nat (i + hr + 1)]) = (if odd NPoints then NPoints else NPoints + 1)"
    using assms(5,6) hr by (auto elim!: oddE evenE)
  show ?thesis
    using ret out cell win width by simp
qed

text \<open>
  At the values 1, 2, 3, 4, 5 with \<open>NPoints = 3\<close>, the interior index 2 holds the mean of
  the values 2, 3, 4.
\<close>

theorem interior_window_witness:
  "\<exists>out s'. smoothdata 0 (Some ''x'') 3 [of_list ''x'' [1, 2, 3, 4, 5]] = (Inr out, s') \<and>
     getitem_index (s' ! out) ''x'' 2 = mean_slice (of_list ''x'' [1, 2, 3, 4, 5]) ''x'' 1 4 \<and>
     var_elems (s' ! out) (origin(''x'' := 2)) = 3"
proof -
  let ?V = "of_list ''x'' [1, 2, 3, 4, 5]"
  have "\<exists>out s'. smoothdata 0 (Some ''x'') 3 [?V] = (Inr out, s') \<and>
      getitem_index (s' ! out) ''x'' 2 = mean_slice ([?V] ! 0) ''x'' (2 - 1) (2 + 1 + 1) \<and>
      (\<forall>ix. var_elems (s' ! out) (ix(''x'' := nat 2)) =
         mean_over (var_elems ([?V] ! 0)) ''x'' [nat (2 - 1)..<nat (2 + 1 + 1)] ix) \<and>
      int (length [nat (2 - 1)..<nat (2 + 1 + 1)]) = (if odd (3::int) then 3 else 3 + 1)"
    by (rule interior_window [where n = 5]) (simp_all add: of_list_dim [simplified])
  then obtain out s' where ret: "smoothdata 0 (Some ''x'') 3 [?V] = (Inr out, s')"
    and at: "getitem_index (s' ! out) ''x'' 2 = mean_slice ?V ''x'' 1 4"
    and el: "\<forall>ix. var_elems (s' ! out) (ix(''x'' := 2)) = mean_over (var_elems ?V) ''x'' [1..<4] ix"
    by auto
  have "mean_over (var_elems ?V) ''x'' [1..<4] origin = 3"
    by (simp add: mean_over_def of_list_def upt_rec)
  with el [rule_format, of origin] have "var_elems (s' ! out) (origin(''x'' := 2)) = 3" by simp
  with ret at show ?thesis by blast
qed

text \<open>
  C1 as stated calls this the window of width \<open>NPoints\<close> centred on \<open>i\<close>. With
  \<open>NPoints = 4\<close> on the values 10, 20, 30, 40, 50 the only interior index is 2; its slice
  \<open>[2 - 2 : 2 + 2 + 1]\<close> holds all five values and the output there is their mean 30, while
  the two runs of four values around index 2 have the means 25 and 35.
\<close>

theorem interior_window_even_counterexample:
  "fst (smoothdata 0 (Some ''x'') 4 [of_list ''x'' [10, 20, 30, 40, 50]]) = Inr 1 \<and>
   to_list (snd (smoothdata 0 (Some ''x'') 4 [of_list ''x'' [10, 20, 30, 40, 50]]) ! 1) ''x'' =
     [20, 25, 30, 35, 40] \<and>
   main_slice (4 div 2) 2 = (0, 5) \<and>
   map_sum id scalar (mean_slice (of_list ''x'' [10, 20, 30, 40, 50]) ''x'' 0 5) = Inr 30 \<and>
   mean_over (var_elems (of_list ''x'' [10, 20, 30, 40, 50])) ''x'' [0, 1, 2, 3] origin = 25 \<and>
   mean_over (var_elems (of_list ''x'' [10, 20, 30, 40, 50])) ''x'' [1, 2, 3, 4] origin = 35"
  by code_simp

subsection \<open>C2: the windows of the start loop\<close>

text \<open>
  Where the end loop does not come back to it, a start index keeps the mean that the start
  loop stored: for \<open>0 \<le> i < hr\<close> with \<open>i < n - hr\<close> the output value at \<open>i\<close> is the mean of
  the values at the positions \<open>0, ..., i + hr\<close>.
\<close>

lemma start_window_kept:
  assumes "variable < length s" and "extent (s ! variable) d = Some n"
    and "len_values (s ! variable) = Inr (int n)" and "3 \<le> NPoints"
    and "hr = NPoints div 2" and "0 \<le> i" and "i < hr" and "i < int n - hr"
  shows "\<exists>out s'. smoothdata variable (Some d) NPoints s = (Inr out, s') \<and>
           getitem_index (s' ! out) d i = mean_slice (s ! variable) d 0 (i + hr + 1) \<and>
           (\<forall>ix. var_elems (s' ! out) (ix(d := nat i)) =
              mean_over (var_elems (s ! variable)) d [0..<nat (i + hr + 1)] ix)"
proof -
  let ?V = "s ! variable"
  let ?g = "smoothed (var_elems ?V) d n hr"
  have i: "0 \<le> i" "i < int n" using assms(6,7,8) by simp_all
  have ret: "smoothdata variable (Some d) NPoints s = (Inr (length s), s @ [?V\<lparr>var_elems := ?g\<rparr>])"
    unfolding assms(5)
    by (rule smoothdata_returns [OF assms(1,2,3,4)]) (use assms(5,6,7,8) in simp)
  have cell: "?g (ix(d := nat i)) = window_mean (var_elems ?V) d n 0 (i + hr + 1) ix" for ix
    by (rule smoothed_start [OF assms(6,7,8)])
  have out: "getitem_index (?V\<lparr>var_elems := ?g\<rparr>) d i = mean_slice ?V d 0 (i + hr + 1)"
    by (rule output_at [OF assms(2) i cell])
  have win: "window_mean (var_elems ?V) d n 0 (i + hr + 1) ix =
      mean_over (var_elems ?V) d [nat 0..<nat (i + hr + 1)] ix" for ix
    by (rule window_mean_in_range) (use assms(6,7,8) in simp_all)
  show ?thesis
    using ret out cell win by simp
qed

text \<open>
  The first value is the mean of \<open>input[0 : hr + 1]\<close> in every such call that returns:
  when \<open>n = hr\<close> the end loop writes index 0 again, with the slice \<open>[- hr : n]\<close>, which
  holds the same values.
\<close>

lemma first_value:
  assumes "variable < length s" and "extent (s ! variable) d = Some n"
    and "len_values (s ! variable) = Inr (int n)" and "3 \<le> NPoints"
    and "hr = NPoints div 2" and "hr \<le> int n"
  shows "\<exists>out s'. smoothdata variable (Some d) NPoints s = (Inr out, s') \<and>
           getitem_index (s' ! out) d 0 = mean_slice (s ! variable) d 0 (hr + 1)"
proof -
  let ?V = "s ! variable"
  let ?g = "smoothed (var_elems ?V) d n hr"
  have hr: "1 \<le> hr" using assms(4,5) by simp
  have i: "(0::int) \<le> 0" "0 < int n" using assms(6) hr by auto
  have ret: "smoothdata variable (Some d) NPoints s = (Inr (length s), s @ [?V\<lparr>var_elems := ?g\<rparr>])"
    unfolding assms(5)
    by (rule smoothdata_returns [OF assms(1,2,3,4)]) (use assms(5,6) in simp)
  have same: "window_mean (var_elems ?V) d n (- hr) (int n) ix =
      window_mean (var_elems ?V) d n 0 (hr + 1) ix" if "int n = hr" for ix
    using that hr by (simp add: window_mean_def adjust_index_def Let_def)
  have cell: "?g (ix(d := nat 0)) = window_mean (var_elems ?V) d n 0 (0 + hr + 1) ix" for ix
  proof (cases "int n = hr")
    case True
    have "?g (ix(d := nat 0)) = window_mean (var_elems ?V) d n (0 - hr) (int n) ix"
      by (rule smoothed_end) (use True hr in simp_all)
    with same [OF True, of ix] show ?thesis by simp
  next
    case False
    show ?thesis by (rule smoothed_start) (use False hr assms(6) in simp_all)
  qed
  have "getitem_index (?V\<lparr>var_elems := ?g\<rparr>) d 0 = mean_slice ?V d 0 (0 + hr + 1)"
    by (rule output_at [OF assms(2) i cell])
  with ret show ?thesis by simp
qed

text \<open>
  C2 says that for every valid call and every start index \<open>i\<close> in \<open>[0, hr)\<close> the output
  value at \<open>i\<close> is the mean of the truncated window \<open>[0, i + hr + 1)\<close>, as the docstring does
  (at the ends all values available within \<open>NPoints // 2\<close> are used). The code breaks it
  when \<open>hr \<le> n < 2 * hr\<close>. At the values 1, 2, 3 with \<open>NPoints = 5\<close> (\<open>hr = 2\<close>) the start
  index 1 has the window \<open>[0, 4)\<close>, all three values, with the mean 2. The call returns
  2, 3, 2: index 1 is also in the end loop's \<open>range(1, 3)\<close>, where \<open>start_index = 1 - 2\<close> is
  negative, the slice \<open>[-1 : 3]\<close> counts it from the end and holds the last value alone,
  and this later write replaces the start loop's.
\<close>

theorem start_window_overwritten:
  "fst (smoothdata 0 (Some ''x'') 5 [of_list ''x'' [1, 2, 3]]) = Inr 1 \<and>
   to_list (snd (smoothdata 0 (Some ''x'') 5 [of_list ''x'' [1, 2, 3]]) ! 1) ''x'' = [2, 3, 2] \<and>
   map_sum id scalar (mean_slice (of_list ''x'' [1, 2, 3]) ''x'' 0 (1 + 5 div 2 + 1)) = Inr 2 \<and>
   end_slice 3 (5 div 2) 1 = (- 1, 3) \<and>
   map_sum id scalar (mean_slice (of_list ''x'' [1, 2, 3]) ''x'' (- 1) 3) = Inr 3"
  by code_simp

subsection \<open>C3: the windows of the end loop\<close>

text \<open>
  Where \<^verbatim>\<open>data_length\<close> is the length \<open>n\<close> along \<open>d\<close>, every call that returns (a dimension
  of the variable, \<open>NPoints \<ge> 3\<close> and \<open>hr \<le> n\<close>) leaves at every end index \<open>i\<close> with
  \<open>n - hr \<le> i < n\<close> the value \<open>mean(variable[dim, i - hr : n], dim)\<close>; no later loop writes
  there. When \<open>hr \<le> i\<close> the slice holds the values at the positions \<open>i - hr, ..., n - 1\<close>.
  When \<open>i < hr\<close>, which needs \<open>n < 2 * hr\<close>, the bound \<open>i - hr\<close> is negative and the
  container counts it from the end: the slice holds the values at the positions
  \<open>n + i - hr, ..., n - 1\<close>.
\<close>

lemma end_window:
  assumes "variable < length s" and "extent (s ! variable) d = Some n"
    and "len_values (s ! variable) = Inr (int n)" and "3 \<le> NPoints"
    and "hr = NPoints div 2" and "hr \<le> int n" and "int n - hr \<le> i" and "i < int n"
  shows "\<exists>out s'. smoothdata variable (Some d) NPoints s = (Inr out, s') \<and>
           getitem_index (s' ! out) d i = mean_slice (s ! variable) d (i - hr) (int n) \<and>
           (hr \<le> i \<longrightarrow> (\<forall>ix. var_elems (s' ! out) (ix(d := nat i)) =
              mean_over (var_elems (s ! variable)) d [nat (i - hr)..<n] ix)) \<and>
           (i < hr \<longrightarrow> (\<forall>ix. var_elems (s' ! out) (ix(d := nat i)) =
              mean_over (var_elems (s ! variable)) d [nat (int n + i - hr)..<n] ix))"
proof -
  let ?V = "s ! variable"
  let ?g = "smoothed (var_elems ?V) d n hr"
  have hr: "1 \<le> hr" using assms(4,5) by simp
  have i: "0 \<le> i" "i < int n" using assms(6,7,8) by simp_all
  have ret: "smoothdata variable (Some d) NPoints s = (Inr (length s), s @ [?V\<lparr>var_elems := ?g\<rparr>])"
    unfolding assms(5)
    by (rule smoothdata_returns [OF assms(1,2,3,4)]) (use assms(5,6) in simp)
  have cell: "?g (ix(d := nat i)) = window_mean (var_elems ?V) d n (i - hr) (int n) ix" for ix
    by (rule smoothed_end [OF i(1) assms(7,8)])
  have out: "getitem_index (?V\<lparr>var_elems := ?g\<rparr>) d i = mean_slice ?V d (i - hr) (int n)"
    by (rule output_at [OF assms(2) i cell])
  have late: "window_mean (var_elems ?V) d n (i - hr) (int n) ix =
      mean_over (var_elems ?V) d [nat (i - hr)..<n] ix" if "hr \<le> i" for ix
    using window_mean_clamped [of "i - hr" n "int n" "var_elems ?V" d ix] that assms(8) hr by simp
  have early: "window_mean (var_elems ?V) d n (i - hr) (int n) ix =
      mean_over (var_elems ?V) d [nat (int n + i - hr)..<n] ix" if "i < hr" for ix
    using window_mean_from_end [of "i - hr" n "var_elems ?V" d ix] that assms(6,7)
    by (simp add: algebra_simps)
  show ?thesis
    using ret out cell late early by simp
qed

text \<open>
  C3 says this of every valid call, with \<open>N\<close> the length along \<open>dim\<close>, as the docstring does
  (each point is given the mean of the points around it along the dimension). The code
  takes \<^verbatim>\<open>data_length = len(variable[dim, :].values)\<close>, and the length of an array of
  values is the length of its outermost dimension. A variable of 2 rows \<open>y\<close> and 5 columns
  \<open>x\<close>, smoothed along \<open>x\<close> with \<open>NPoints = 3\<close> (\<open>N = 5\<close>, \<open>hr = 1\<close>), has the end index 4, and
  C3 gives \<open>mean(input[3 : 5])\<close> there: 12 in the first row, 19/2 in the second. The code has
  \<^verbatim>\<open>data_length = 2\<close>: its end loop is \<open>range(1, 2)\<close> and stores the mean of \<open>input[0 : 2]\<close>
  at index 1, the main loop is empty, and the indices 2, 3, 4 keep the input's values, 16
  and 10 at index 4.
\<close>

theorem end_window_outer_length:
  "fst (smoothdata 0 (Some ''x'') 3 [of_rows ''y'' ''x'' 5 [[1, 2, 4, 8, 16], [6, 7, 8, 9, 10]]]) = Inr 1 \<and>
   to_rows (snd (smoothdata 0 (Some ''x'') 3 [of_rows ''y'' ''x'' 5 [[1, 2, 4, 8, 16], [6, 7, 8, 9, 10]]]) ! 1)
     ''y'' ''x'' = [[3 / 2, 3 / 2, 4, 8, 16], [13 / 2, 13 / 2, 8, 9, 10]] \<and>
   extent (of_rows ''y'' ''x'' 5 [[1, 2, 4, 8, 16], [6, 7, 8, 9, 10]]) ''x'' = Some 5 \<and>
   len_values (of_rows ''y'' ''x'' 5 [[1, 2, 4, 8, 16], [6, 7, 8, 9, 10]]) = Inr 2 \<and>
   map_sum id (\<lambda>m. to_list m ''y'')
     (mean_slice (of_rows ''y'' ''x'' 5 [[1, 2, 4, 8, 16], [6, 7, 8, 9, 10]]) ''x'' (4 - 3 div 2) 5) =
     Inr [12, 19 / 2] \<and>
   map_sum id (\<lambda>m. to_list m ''y'')
     (getitem_index (snd (smoothdata 0 (Some ''x'') 3 [of_rows ''y'' ''x'' 5 [[1, 2, 4, 8, 16], [6, 7, 8, 9, 10]]]) ! 1)
        ''x'' 4) = Inr [16, 10]"
  by code_simp

subsection \<open>C4: fewer values than the window\<close>

text \<open>
  Where \<^verbatim>\<open>data_length\<close> is the length \<open>n\<close> along \<open>d\<close> and \<open>hr \<le> n\<close>, the three loops run
  in the order start, main, end, and each returns: the start loop stores its mean at every
  index of \<open>range(0, hr)\<close>, the main loop at every index of \<open>range(hr, n - hr)\<close> and the
  end loop at every index of \<open>range(n - hr, n)\<close>. An index in more than one range is
  written by each loop that contains it, and the later write is the final value: what the
  end loop stores stays, the main loop leaves the start indices as the start loop wrote
  them, and the end loop leaves the indices below \<open>n - hr\<close> as they were. The call
  returns, and every index of the output is in one of the three ranges.
\<close>

lemma loops_in_order:
  assumes "variable < length s" and "extent (s ! variable) d = Some m"
    and "len_values (s ! variable) = Inr n" and "n = int m" and "3 \<le> NPoints"
    and "hr = NPoints div 2" and "hr \<le> n"
  shows "\<exists>g1 g2 g3.
      start_loop variable (length s) d hr (s @ [s ! variable]) =
        (Inr (), s @ [(s ! variable)\<lparr>var_elems := g1\<rparr>]) \<and>
      main_loop variable (length s) d n hr (s @ [(s ! variable)\<lparr>var_elems := g1\<rparr>]) =
        (Inr (), s @ [(s ! variable)\<lparr>var_elems := g2\<rparr>]) \<and>
      end_loop variable (length s) d n hr (s @ [(s ! variable)\<lparr>var_elems := g2\<rparr>]) =
        (Inr (), s @ [(s ! variable)\<lparr>var_elems := g3\<rparr>]) \<and>
      smoothdata variable (Some d) NPoints s =
        (Inr (length s), s @ [(s ! variable)\<lparr>var_elems := g3\<rparr>]) \<and>
      (\<forall>i. 0 \<le> i \<and> i < hr \<longrightarrow>
         getitem_index ((s ! variable)\<lparr>var_elems := g1\<rparr>) d i = mean_slice (s ! variable) d 0 (i + hr + 1)) \<and>
      (\<forall>i. hr \<le> i \<and> i < n - hr \<longrightarrow>
         getitem_index ((s ! variable)\<lparr>var_elems := g2\<rparr>) d i =
           mean_slice (s ! variable) d (i - hr) (i + hr + 1)) \<and>
      (\<forall>i. 0 \<le> i \<and> i < hr \<longrightarrow>
         getitem_index ((s ! variable)\<lparr>var_elems := g2\<rparr>) d i =
           getitem_index ((s ! variable)\<lparr>var_elems := g1\<rparr>) d i) \<and>
      (\<forall>i. n - hr \<le> i \<and> i < n \<longrightarrow>
         getitem_index ((s ! variable)\<lparr>var_elems := g3\<rparr>) d i = mean_slice (s ! variable) d (i - hr) n) \<and>
      (\<forall>i. 0 \<le> i \<and> i < n - hr \<longrightarrow>
         getitem_index ((s ! variable)\<lparr>var_elems := g3\<rparr>) d i =
           getitem_index ((s ! variable)\<lparr>var_elems := g2\<rparr>) d i) \<and>
      (\<forall>i. 0 \<le> i \<and> i < n \<longrightarrow>
         i \<in> set (py_range 0 hr) \<union> set (py_range hr (n - hr)) \<union> set (py_range (n - hr) n))"
proof -
  let ?V = "s ! variable"
  let ?f = "var_elems ?V"
  define g1 where "g1 = loop_elems (start_slice hr) ?f d m (py_range 0 hr) ?f"
  define g2 where "g2 = loop_elems (main_slice hr) ?f d m (py_range hr (n - hr)) g1"
  define g3 where "g3 = loop_elems (end_slice n hr) ?f d m (py_range (n - hr) n) g2"
  have hr: "0 \<le> hr" "hr \<le> int m" using assms(4,5,6,7) by simp_all
  have len: "len_values ?V = Inr (int m)" using assms(3,4) by simp
  have s0: "s @ [?V] = s @ [?V\<lparr>var_elems := ?f\<rparr>]" by simp
  have l1: "start_loop variable (length s) d hr (s @ [?V]) = (Inr (), s @ [?V\<lparr>var_elems := g1\<rparr>])"
    unfolding g1_def by (subst s0) (rule start_loop_writes [OF assms(1,2) hr(2)])
  have l2: "main_loop variable (length s) d n hr (s @ [?V\<lparr>var_elems := g1\<rparr>]) =
      (Inr (), s @ [?V\<lparr>var_elems := g2\<rparr>])"
    unfolding g2_def assms(4) by (rule main_loop_writes [OF assms(1,2) hr(1)])
  have l3: "end_loop variable (length s) d n hr (s @ [?V\<lparr>var_elems := g2\<rparr>]) =
      (Inr (), s @ [?V\<lparr>var_elems := g3\<rparr>])"
    unfolding g3_def assms(4) by (rule end_loop_writes [OF assms(1,2) hr(2)])
  have g3: "g3 = smoothed ?f d m hr"
    using three_loops_elems [OF hr, of ?f d] by (simp add: g3_def g2_def g1_def assms(4))
  have ret: "smoothdata variable (Some d) NPoints s = (Inr (length s), s @ [?V\<lparr>var_elems := g3\<rparr>])"
    using smoothdata_returns [OF assms(1,2) len assms(5)] assms(6) hr(2) g3 by simp
  have nonneg: "\<forall>i\<in>set (py_range a b). 0 \<le> i" if "0 \<le> a" for a b
    using that by (auto simp add: set_py_range)
  have v1: "getitem_index (?V\<lparr>var_elems := g1\<rparr>) d i = mean_slice ?V d 0 (i + hr + 1)"
    if "0 \<le> i" "i < hr" for i
  proof (rule output_at [OF assms(2) that(1)])
    show "i < int m" using that hr by simp
    show "g1 (ix(d := nat i)) = window_mean ?f d m 0 (i + hr + 1) ix" for ix
      using that by (simp add: g1_def loop_elems_at nonneg set_py_range start_slice_def)
  qed
  have v2: "getitem_index (?V\<lparr>var_elems := g2\<rparr>) d i = mean_slice ?V d (i - hr) (i + hr + 1)"
    if "hr \<le> i" "i < n - hr" for i
  proof (rule output_at [OF assms(2)])
    show "0 \<le> i" "i < int m" using that hr assms(4) by simp_all
    show "g2 (ix(d := nat i)) = window_mean ?f d m (i - hr) (i + hr + 1) ix" for ix
      using that hr by (simp add: g2_def loop_elems_at nonneg set_py_range main_slice_def)
  qed
  have k2: "getitem_index (?V\<lparr>var_elems := g2\<rparr>) d i = getitem_index (?V\<lparr>var_elems := g1\<rparr>) d i"
    if "0 \<le> i" "i < hr" for i
  proof (rule same_at [OF assms(2) that(1)])
    show "i < int m" using that hr by simp
    show "g2 (ix(d := nat i)) = g1 (ix(d := nat i))" for ix
      using that hr by (simp add: g2_def loop_elems_at nonneg set_py_range)
  qed
  have v3: "getitem_index (?V\<lparr>var_elems := g3\<rparr>) d i = mean_slice ?V d (i - hr) n"
    if "n - hr \<le> i" "i < n" for i
  proof -
    have i: "0 \<le> i" "i < int m" using that hr assms(4) by simp_all
    have "g3 (ix(d := nat i)) = window_mean ?f d m (i - hr) (int m) ix" for ix
      unfolding g3 by (rule smoothed_end [OF i(1)]) (use that assms(4) in simp_all)
    from output_at [OF assms(2) i this] show ?thesis by (simp add: assms(4))
  qed
  have k3: "getitem_index (?V\<lparr>var_elems := g3\<rparr>) d i = getitem_index (?V\<lparr>var_elems := g2\<rparr>) d i"
    if "0 \<le> i" "i < n - hr" for i
  proof (rule same_at [OF assms(2) that(1)])
    show "i < int m" using that hr assms(4) by simp
    have "\<forall>j\<in>set (py_range (n - hr) n). 0 \<le> j"
      using hr assms(4) by (auto simp add: set_py_range)
    then show "g3 (ix(d := nat i)) = g2 (ix(d := nat i))" for ix
      using that hr by (simp add: g3_def loop_elems_at set_py_range)
  qed
  have cover: "i \<in> set (py_range 0 hr) \<union> set (py_range hr (n - hr)) \<union> set (py_range (n - hr) n)"
    if "0 \<le> i" "i < n" for i
    using that by (auto simp add: set_py_range)
  show ?thesis
    apply (rule exI [of _ g1], rule exI [of _ g2], rule exI [of _ g3])
    using l1 l2 l3 ret v1 v2 k2 v3 k3 cover by blast
qed

text \<open>
  C4 says that when \<open>N \<le> NPoints\<close> the three loops run in the order start, main, end,
  that the call still executes correctly, and that every index along the dimension ends
  up assigned a value; the docstring says that at the ends all values available within
  \<open>NPoints // 2\<close> are used. The code breaks it when \<open>N < NPoints // 2\<close>. With the one
  value 4 and \<open>NPoints = 5\<close> (\<open>N = 1\<close>, \<open>hr = 2\<close>) the start loop runs over \<open>range(0, 2)\<close>,
  whatever the length is: at index 0 it takes the slice \<open>[0 : 3]\<close> and stores its mean, at
  index 1 it takes the slice \<open>[0 : 4]\<close> and the store raises, for the output has no index
  1. The call raises the container's index error; the main loop and the end loop are not
  reached.
\<close>

theorem short_input_raises:
  "fst (smoothdata 0 (Some ''x'') 5 [of_list ''x'' [4]]) = Inl IndexError \<and>
   extent (of_list ''x'' [4]) ''x'' = Some 1 \<and>
   py_range 0 (5 div 2) = [0, 1] \<and>
   fst (start_loop 0 1 ''x'' (5 div 2) [of_list ''x'' [4], of_list ''x'' [4]]) = Inl IndexError \<and>
   fst (assign_mean 0 1 ''x'' 0 0 3 [of_list ''x'' [4], of_list ''x'' [4]]) = Inr () \<and>
   fst (assign_mean 0 1 ''x'' 1 0 4 [of_list ''x'' [4], of_list ''x'' [4]]) = Inl IndexError \<and>
   snd (smoothdata_log 0 (Some ''x'') 5 [of_list ''x'' [4]]) = [(0, 3), (0, 4)]"
  by code_simp

subsection \<open>C5: the precondition errors\<close>

text \<open>
  C5. The call fails with a \<^verbatim>\<open>ValueError\<close> exactly when a precondition is violated:
  without a dimension it raises "smoothdata was not given a dim to smooth.", and with a
  dimension and \<open>NPoints < 3\<close> it raises "smoothdata needs NPoints of 3 or higher.". Both
  are raised before anything is computed: the store is the caller's, with no copy
  allocated. The error is the result of the call; nothing retries. With \<open>NPoints = 3\<close> and
  a dimension of the variable along which it holds at least one value, the call returns
  (for a variable whose values are as long as this dimension).
\<close>

theorem precondition_errors:
  "((\<exists>msg. fst (smoothdata variable dim' NPoints s) = Inl (ValueError msg)) \<longleftrightarrow>
      dim' = None \<or> NPoints < 3) \<and>
   smoothdata variable None NPoints s =
     (Inl (ValueError ''smoothdata was not given a dim to smooth.''), s) \<and>
   (NPoints < 3 \<longrightarrow> smoothdata variable (Some d) NPoints s =
     (Inl (ValueError ''smoothdata needs NPoints of 3 or higher.''), s)) \<and>
   (variable < length s \<and> extent (s ! variable) d = Some n \<and> 0 < n \<and>
      len_values (s ! variable) = Inr (int n) \<longrightarrow>
     (\<exists>out s'. smoothdata variable (Some d) 3 s = (Inr out, s')))"
proof -
  have kinds: "(\<exists>msg. fst (smoothdata variable dim' NPoints s) = Inl (ValueError msg)) \<longleftrightarrow>
      dim' = None \<or> NPoints < 3"
  proof (cases dim')
    case None
    then show ?thesis by (simp add: smoothdata_def)
  next
    case (Some d')
    show ?thesis
    proof (cases "NPoints < 3")
      case True
      with Some show ?thesis by (simp add: smoothdata_def)
    next
      case False
      with Some smoothdata_no_ValueError [of NPoints variable d' s] show ?thesis by simp
    qed
  qed
  have three: "\<exists>out s'. smoothdata variable (Some d) 3 s = (Inr out, s')"
    if "variable < length s" "extent (s ! variable) d = Some n" "0 < n"
      "len_values (s ! variable) = Inr (int n)"
  proof -
    have "(3::int) div 2 \<le> int n" using that(3) by simp
    from smoothdata_returns [OF that(1,2,4) _ this] show ?thesis by simp
  qed
  show ?thesis
    using kinds three by (simp add: smoothdata_def)
qed

text \<open>
  On the values 1, 5: no dimension, \<open>NPoints = 2\<close> and \<open>NPoints = 1\<close> raise, and
  \<open>NPoints = 3\<close> returns.
\<close>

theorem precondition_errors_witness:
  "smoothdata 0 None 3 [of_list ''x'' [1, 5]] =
     (Inl (ValueError ''smoothdata was not given a dim to smooth.''), [of_list ''x'' [1, 5]]) \<and>
   smoothdata 0 (Some ''x'') 2 [of_list ''x'' [1, 5]] =
     (Inl (ValueError ''smoothdata needs NPoints of 3 or higher.''), [of_list ''x'' [1, 5]]) \<and>
   smoothdata 0 (Some ''x'') 1 [of_list ''x'' [1, 5]] =
     (Inl (ValueError ''smoothdata needs NPoints of 3 or higher.''), [of_list ''x'' [1, 5]]) \<and>
   (\<exists>out s'. smoothdata 0 (Some ''x'') 3 [of_list ''x'' [1, 5]] = (Inr out, s'))"
  using precondition_errors [of 0 None 3 "[of_list ''x'' [1, 5]]" "''x''" 2]
    precondition_errors [of 0 "Some ''x''" 2 "[of_list ''x'' [1, 5]]" "''x''" 2]
    precondition_errors [of 0 "Some ''x''" 1 "[of_list ''x'' [1, 5]]" "''x''" 2]
  by (simp add: of_list_dim [simplified])

subsection \<open>C6: the input is not changed\<close>

text \<open>
  C6. For every call that returns, the input variable is unchanged: the object that
  \<open>variable\<close> refers to is the same after the call as before, with the same dimensions and
  the same element at every coordinate, as is every other object of the caller's store.
  The returned reference is a new object: it was not allocated before the call, so it is
  distinct from the input.
\<close>

theorem input_unchanged:
  assumes "variable < length s" and "smoothdata variable dim' NPoints s = (Inr out, s')"
  shows "s' ! variable = s ! variable \<and> take (length s) s' = s \<and>
         out = length s \<and> out \<noteq> variable \<and> length s' = length s + 1"
  using smoothdata_InrD [OF assms(2)] assms(1) by (auto simp add: nth_append)

text \<open>
  On 3 rows \<open>x\<close> of 2 columns \<open>y\<close>, smoothed along \<open>x\<close>, the call returns the new reference 1,
  and object 0 is as before.
\<close>

theorem input_unchanged_witness:
  "\<exists>out s'. smoothdata 0 (Some ''x'') 3 [of_rows ''x'' ''y'' 2 [[1, 2], [3, 4], [5, 6]]] = (Inr out, s') \<and>
     s' ! 0 = of_rows ''x'' ''y'' 2 [[1, 2], [3, 4], [5, 6]] \<and> out = 1 \<and> length s' = 2"
proof -
  let ?V = "of_rows ''x'' ''y'' 2 [[1, 2], [3, 4], [5, 6]]"
  have "smoothdata 0 (Some ''x'') 3 [?V] =
      (Inr (length [?V]), [?V] @ [([?V] ! 0)\<lparr>var_elems := smoothed (var_elems ([?V] ! 0)) ''x'' 3 (3 div 2)\<rparr>])"
    by (rule smoothdata_returns) (simp_all add: of_rows_def extent_def len_values_def)
  then have run: "smoothdata 0 (Some ''x'') 3 [?V] =
      (Inr 1, [?V, ?V\<lparr>var_elems := smoothed (var_elems ?V) ''x'' 3 1\<rparr>])"
    by simp
  have "0 < length [?V]" by simp
  from input_unchanged [OF this run] run show ?thesis by simp
qed

subsection \<open>C7: the shape of the output\<close>

text \<open>
  C7. For every call that returns, the output has the shape of the input: the same
  dimensions in the same order, and along each of them, the smoothing dimension and every
  other, the same length.
\<close>

theorem same_shape:
  assumes "variable < length s" and "smoothdata variable dim' NPoints s = (Inr out, s')"
  shows "var_dims (s' ! out) = var_dims (s ! variable) \<and>
         (\<forall>l. extent (s' ! out) l = extent (s ! variable) l)"
  using smoothdata_InrD [OF assms(2)] by auto

text \<open>
  On 3 rows \<open>x\<close> of 2 columns \<open>y\<close>, smoothed along \<open>x\<close>, the output has 3 rows \<open>x\<close> of 2
  columns \<open>y\<close>.
\<close>

theorem same_shape_witness:
  "\<exists>out s'. smoothdata 0 (Some ''x'') 3 [of_rows ''x'' ''y'' 2 [[1, 2], [3, 4], [5, 6]]] = (Inr out, s') \<and>
     var_dims (s' ! out) = [(''x'', 3), (''y'', 2)] \<and>
     extent (s' ! out) ''x'' = Some 3 \<and> extent (s' ! out) ''y'' = Some 2"
proof -
  let ?V = "of_rows ''x'' ''y'' 2 [[1, 2], [3, 4], [5, 6]]"
  have "smoothdata 0 (Some ''x'') 3 [?V] =
      (Inr (length [?V]), [?V] @ [([?V] ! 0)\<lparr>var_elems := smoothed (var_elems ([?V] ! 0)) ''x'' 3 (3 div 2)\<rparr>])"
    by (rule smoothdata_returns) (simp_all add: of_rows_def extent_def len_values_def)
  then have run: "smoothdata 0 (Some ''x'') 3 [?V] =
      (Inr 1, [?V, ?V\<lparr>var_elems := smoothed (var_elems ?V) ''x'' 3 1\<rparr>])"
    by simp
  have "0 < length [?V]" by simp
  from same_shape [OF this run] run show ?thesis
    by (simp add: of_rows_def extent_def)
qed

subsection \<open>C8: an even number of points\<close>

text \<open>
  C8, as amended. For every even \<open>NPoints \<ge> 4\<close> the half range of all three loops is
  \<open>NPoints div 2\<close>, computed from the value as given, and this is \<open>(NPoints + 1) div 2\<close>. No
  statement changes \<open>NPoints\<close>, yet the window is the one of the next odd value: the slice
  of an interior index holds \<open>NPoints + 1\<close> values, and the call returns what the call with
  \<open>NPoints + 1\<close> returns, as the docstring says of an even \<open>NPoints\<close>.
\<close>

theorem even_NPoints:
  assumes "even NPoints" and "4 \<le> NPoints"
  shows "NPoints div 2 = (NPoints + 1) div 2 \<and>
         smoothdata variable dim' NPoints s = smoothdata variable dim' (NPoints + 1) s \<and>
         (\<forall>index. main_slice (NPoints div 2) index = (index - NPoints div 2, index + NPoints div 2 + 1) \<and>
                  (index + NPoints div 2 + 1) - (index - NPoints div 2) = NPoints + 1) \<and>
         (variable < length s \<and> extent (s ! variable) d = Some n \<and>
            len_values (s ! variable) = Inr (int n) \<and> NPoints div 2 \<le> int n \<longrightarrow>
          smoothdata variable (Some d) NPoints s =
            (Inr (length s),
             s @ [(s ! variable)\<lparr>var_elems := smoothed (var_elems (s ! variable)) d n (NPoints div 2)\<rparr>]))"
proof -
  have half: "NPoints div 2 = (NPoints + 1) div 2" using assms(1) by (auto elim!: evenE)
  have same: "smoothdata variable dim' NPoints s = smoothdata variable dim' (NPoints + 1) s"
    unfolding smoothdata_def half [symmetric]
    using assms(2) by (cases dim') simp_all
  have width: "(index + NPoints div 2 + 1) - (index - NPoints div 2) = NPoints + 1" for index
    using assms(1) by (auto elim!: evenE)
  have ret: "smoothdata variable (Some d) NPoints s =
      (Inr (length s),
       s @ [(s ! variable)\<lparr>var_elems := smoothed (var_elems (s ! variable)) d n (NPoints div 2)\<rparr>])"
    if "variable < length s" "extent (s ! variable) d = Some n"
      "len_values (s ! variable) = Inr (int n)" "NPoints div 2 \<le> int n"
    by (rule smoothdata_returns [OF that(1,2,3) _ that(4)]) (use assms(2) in simp)
  show ?thesis
    using half same width ret by (simp add: main_slice_def)
qed

text \<open>With \<open>NPoints = 4\<close> on five values the call is the call with 5, and the slice of index 2 is \<open>[0 : 5]\<close>.\<close>

theorem even_NPoints_witness:
  "smoothdata 0 (Some ''x'') 4 [of_list ''x'' [10, 20, 30, 40, 50]] =
     smoothdata 0 (Some ''x'') 5 [of_list ''x'' [10, 20, 30, 40, 50]] \<and>
   main_slice (4 div 2) 2 = (0, 5) \<and> (5::int) - 0 = 4 + 1"
proof -
  let ?s = "[of_list ''x'' [10, 20, 30, 40, 50]]"
  have e: "even (4::int)" "(4::int) \<le> 4" by simp_all
  note w = even_NPoints [OF e, of 0 "Some ''x''" ?s "''x''" 5]
  from w have "smoothdata 0 (Some ''x'') 4 ?s = smoothdata 0 (Some ''x'') (4 + 1) ?s"
    by (rule conjunct1 [OF conjunct2])
  then have a: "smoothdata 0 (Some ''x'') 4 ?s = smoothdata 0 (Some ''x'') 5 ?s" by simp
  from w have "\<forall>index. main_slice (4 div 2) index = (index - 4 div 2, index + 4 div 2 + 1) \<and>
      (index + 4 div 2 + 1) - (index - 4 div 2) = (4::int) + 1"
    by (rule conjunct1 [OF conjunct2 [OF conjunct2]])
  from this [rule_format, of 2] have b: "main_slice (4 div 2) 2 = (0, 5) \<and> (5::int) - 0 = 4 + 1"
    by simp
  from a b show ?thesis by (rule conjI)
qed

text \<open>
  C8 as stated says that the window size is not adjusted. With \<open>NPoints = 6\<close> on the values
  1, ..., 7 the call returns what \<open>NPoints = 7\<close> returns; the slice of the interior index 3
  is \<open>[0 : 7]\<close>, all seven values, and the output there is their mean 4, while the two
  runs of six values have the means 7/2 and 9/2.
\<close>

theorem even_NPoints_counterexample:
  "to_list (snd (smoothdata 0 (Some ''x'') 6 [of_list ''x'' [1, 2, 3, 4, 5, 6, 7]]) ! 1) ''x'' =
     [5 / 2, 3, 7 / 2, 4, 9 / 2, 5, 11 / 2] \<and>
   to_list (snd (smoothdata 0 (Some ''x'') 7 [of_list ''x'' [1, 2, 3, 4, 5, 6, 7]]) ! 1) ''x'' =
     [5 / 2, 3, 7 / 2, 4, 9 / 2, 5, 11 / 2] \<and>
   main_slice (6 div 2) 3 = (0, 7) \<and>
   map_sum id scalar (mean_slice (of_list ''x'' [1, 2, 3, 4, 5, 6, 7]) ''x'' 0 7) = Inr 4 \<and>
   mean_over (var_elems (of_list ''x'' [1, 2, 3, 4, 5, 6, 7])) ''x'' [0, 1, 2, 3, 4, 5] origin = 7 / 2 \<and>
   mean_over (var_elems (of_list ''x'' [1, 2, 3, 4, 5, 6, 7])) ''x'' [1, 2, 3, 4, 5, 6] origin = 9 / 2"
  by code_simp

subsection \<open>C9: constant sequences\<close>

text \<open>
  C9 says that a constant sequence of any length \<open>N \<ge> 1\<close> is returned as it is, for every
  \<open>NPoints \<ge> 3\<close>; the docstring says that at the ends all values available within
  \<open>NPoints // 2\<close> are used. The code breaks it when \<open>N < NPoints // 2\<close>. With the two
  values 7, 7 and \<open>NPoints = 7\<close> (\<open>N = 2\<close>, \<open>hr = 3\<close>) the start loop runs over
  \<open>range(0, 3)\<close>: at the indices 0 and 1 it stores the mean of the two values, 7, and at
  index 2 the store raises, for the output has no index 2. The call raises the
  container's index error and returns no tensor.
\<close>

theorem constant_short_raises:
  "fst (smoothdata 0 (Some ''x'') 7 [of_list ''x'' [7, 7]]) = Inl IndexError \<and>
   to_list (of_list ''x'' [7, 7]) ''x'' = [7, 7] \<and>
   py_range 0 (7 div 2) = [0, 1, 2] \<and>
   snd (smoothdata_log 0 (Some ''x'') 7 [of_list ''x'' [7, 7]]) = [(0, 4), (0, 5), (0, 6)] \<and>
   to_list (snd (smoothdata 0 (Some ''x'') 7 [of_list ''x'' [7, 7]]) ! 1) ''x'' = [7, 7] \<and>
   fst (assign_mean 0 1 ''x'' 2 0 6 [of_list ''x'' [7, 7], of_list ''x'' [7, 7]]) = Inl IndexError"
  by code_simp

subsection \<open>C10: the bounds of the slices\<close>

text \<open>
  With at least \<open>hr\<close> values (and \<open>hr \<ge> 1\<close>) no slice of a call is empty, so every stored
  mean is a quotient by a positive count.
\<close>

lemma stored_slices_nonempty:
  assumes "1 \<le> hr" "hr \<le> int n" "(a, b) \<in> set (slices_taken (int n) hr)"
  shows "adjust_index (int n) a < adjust_index (int n) b"
  using assms
  by (auto simp add: slices_taken_def set_py_range start_slice_def main_slice_def end_slice_def
      adjust_index_def)

text \<open>
  C10, as amended. For every call that returns, with a dimension \<open>d\<close> of the variable,
  \<open>NPoints \<ge> 3\<close>, \<open>hr = NPoints div 2\<close>, \<^verbatim>\<open>data_length\<close> the length \<open>n\<close> along \<open>d\<close> and
  \<open>hr \<le> n\<close>: every slice that the three loops take has bounds \<open>0 \<le> start < end \<le> n\<close>
  exactly when \<open>2 * hr \<le> n\<close>. This holds whenever \<open>NPoints \<le> n\<close>. When \<open>n < 2 * hr\<close> the
  end loop takes, for every index with \<open>n - hr \<le> index < hr\<close>, the slice
  \<open>[index - hr : n]\<close> with the negative \<open>start_index = index - hr\<close> as it is, and \<open>n - hr\<close>
  is such an index. The slices that the loops take are the log of
  \<open>smoothdata_log\<close>, which is \<open>smoothdata\<close> when the log is dropped.
\<close>

theorem slices_in_range:
  assumes "variable < length s" and "extent (s ! variable) d = Some n"
    and "len_values (s ! variable) = Inr (int n)" and "3 \<le> NPoints"
    and "hr = NPoints div 2" and "hr \<le> int n"
  shows "fst (smoothdata_log variable (Some d) NPoints s) = smoothdata variable (Some d) NPoints s \<and>
         (\<exists>s'. smoothdata variable (Some d) NPoints s = (Inr (length s), s')) \<and>
         ((\<forall>(a, b) \<in> set (snd (smoothdata_log variable (Some d) NPoints s)).
             0 \<le> a \<and> a < b \<and> b \<le> int n) \<longleftrightarrow> 2 * hr \<le> int n) \<and>
         (NPoints \<le> int n \<longrightarrow> 2 * hr \<le> int n) \<and>
         (int n < 2 * hr \<longrightarrow>
            (\<forall>index. int n - hr \<le> index \<and> index < hr \<longrightarrow>
               index \<in> set (py_range (int n - hr) (int n)) \<and>
               end_slice (int n) hr index = (index - hr, int n) \<and> index - hr < 0 \<and>
               (index - hr, int n) \<in> set (snd (smoothdata_log variable (Some d) NPoints s))) \<and>
            0 \<le> int n - hr \<and> int n - hr < hr)"
proof -
  have hr: "1 \<le> hr" using assms(4,5) by simp
  have run: "smoothdata_log variable (Some d) NPoints s =
      ((Inr (length s),
        s @ [(s ! variable)\<lparr>var_elems := smoothed (var_elems (s ! variable)) d n hr\<rparr>]),
       slices_taken (int n) hr)"
    unfolding assms(5)
    by (rule smoothdata_log_returns [OF assms(1,2,3,4)]) (use assms(5,6) in simp)
  have taken: "snd (smoothdata_log variable (Some d) NPoints s) = slices_taken (int n) hr"
    using run by simp
  have ret: "\<exists>s'. smoothdata variable (Some d) NPoints s = (Inr (length s), s')"
    using run smoothdata_log_result [of variable "Some d" NPoints s] by (auto simp add: eq_commute)
  have suff: "0 \<le> a \<and> a < b \<and> b \<le> int n"
    if "2 * hr \<le> int n" "(a, b) \<in> set (slices_taken (int n) hr)" for a b
    using that hr
    by (auto simp add: slices_taken_def set_py_range start_slice_def main_slice_def end_slice_def)
  have last: "(index - hr, int n) \<in> set (slices_taken (int n) hr)"
    if "int n - hr \<le> index" "index < int n" for index
    using that by (auto simp add: slices_taken_def set_py_range end_slice_def image_iff)
  have nec: "\<not> (\<forall>(a, b) \<in> set (slices_taken (int n) hr). 0 \<le> a \<and> a < b \<and> b \<le> int n)"
    if "int n < 2 * hr"
  proof -
    have "(int n - hr - hr, int n) \<in> set (slices_taken (int n) hr)"
      by (rule last) (use hr in simp_all)
    moreover have "int n - hr - hr < 0" using that by simp
    ultimately show ?thesis by fastforce
  qed
  have iff: "(\<forall>(a, b) \<in> set (slices_taken (int n) hr). 0 \<le> a \<and> a < b \<and> b \<le> int n) \<longleftrightarrow>
      2 * hr \<le> int n"
    using suff nec by (cases "2 * hr \<le> int n") auto
  have large: "2 * hr \<le> int n" if "NPoints \<le> int n" using that assms(5) by simp
  have neg: "index \<in> set (py_range (int n - hr) (int n)) \<and>
      end_slice (int n) hr index = (index - hr, int n) \<and> index - hr < 0 \<and>
      (index - hr, int n) \<in> set (slices_taken (int n) hr)"
    if "int n - hr \<le> index" "index < hr" for index
    using that assms(6) last [of index] by (simp add: set_py_range end_slice_def)
  show ?thesis
    unfolding taken
    using smoothdata_log_result [of variable "Some d" NPoints s] ret iff large neg assms(6)
    by simp
qed

text \<open>
  On five values with \<open>NPoints = 3\<close> all slices of the call are in range. On the values
  1, 2, 3 with \<open>NPoints = 5\<close> they are not: at index 1 the end loop takes the slice
  \<open>[-1 : 3]\<close>.
\<close>

theorem slices_in_range_witness:
  "list_all (\<lambda>(a, b). 0 \<le> a \<and> a < b \<and> b \<le> 5)
     (snd (smoothdata_log 0 (Some ''x'') 3 [of_list ''x'' [1, 2, 3, 4, 5]])) \<and>
   \<not> list_all (\<lambda>(a, b). 0 \<le> a \<and> a < b \<and> b \<le> 3)
     (snd (smoothdata_log 0 (Some ''x'') 5 [of_list ''x'' [1, 2, 3]])) \<and>
   end_slice 3 2 1 = (- 1, 3) \<and>
   (- 1, 3) \<in> set (snd (smoothdata_log 0 (Some ''x'') 5 [of_list ''x'' [1, 2, 3]]))"
proof -
  let ?long = "[of_list ''x'' [1, 2, 3, 4, 5]]" and ?short = "[of_list ''x'' [1, 2, 3]]"
  have "fst (smoothdata_log 0 (Some ''x'') 3 ?long) = smoothdata 0 (Some ''x'') 3 ?long \<and>
      (\<exists>s'. smoothdata 0 (Some ''x'') 3 ?long = (Inr (length ?long), s')) \<and>
      ((\<forall>(a, b) \<in> set (snd (smoothdata_log 0 (Some ''x'') 3 ?long)).
          0 \<le> a \<and> a < b \<and> b \<le> int 5) \<longleftrightarrow> 2 * 1 \<le> int 5) \<and>
      (3 \<le> int 5 \<longrightarrow> 2 * 1 \<le> int 5) \<and>
      (int 5 < 2 * 1 \<longrightarrow>
         (\<forall>index. int 5 - 1 \<le> index \<and> index < 1 \<longrightarrow>
            index \<in> set (py_range (int 5 - 1) (int 5)) \<and>
            end_slice (int 5) 1 index = (index - 1, int 5) \<and> index - 1 < 0 \<and>
            (index - 1, int 5) \<in> set (snd (smoothdata_log 0 (Some ''x'') 3 ?long))) \<and>
         0 \<le> int 5 - 1 \<and> int 5 - 1 < 1)"
    by (rule slices_in_range [where n = 5 and d = "''x''"]) (simp_all add: of_list_dim [simplified])
  then have "(\<forall>(a, b) \<in> set (snd (smoothdata_log 0 (Some ''x'') 3 ?long)).
      0 \<le> a \<and> a < b \<and> b \<le> int 5) \<longleftrightarrow> 2 * 1 \<le> int 5"
    by (rule conjunct1 [OF conjunct2 [OF conjunct2]])
  then have long: "list_all (\<lambda>(a, b). 0 \<le> a \<and> a < b \<and> b \<le> 5)
      (snd (smoothdata_log 0 (Some ''x'') 3 ?long))"
    by (simp add: list_all_iff)
  have short_all: "fst (smoothdata_log 0 (Some ''x'') 5 ?short) = smoothdata 0 (Some ''x'') 5 ?short \<and>
      (\<exists>s'. smoothdata 0 (Some ''x'') 5 ?short = (Inr (length ?short), s')) \<and>
      ((\<forall>(a, b) \<in> set (snd (smoothdata_log 0 (Some ''x'') 5 ?short)).
          0 \<le> a \<and> a < b \<and> b \<le> int 3) \<longleftrightarrow> 2 * 2 \<le> int 3) \<and>
      (5 \<le> int 3 \<longrightarrow> 2 * 2 \<le> int 3) \<and>
      (int 3 < 2 * 2 \<longrightarrow>
         (\<forall>index. int 3 - 2 \<le> index \<and> index < 2 \<longrightarrow>
            index \<in> set (py_range (int 3 - 2) (int 3)) \<and>
            end_slice (int 3) 2 index = (index - 2, int 3) \<and> index - 2 < 0 \<and>
            (index - 2, int 3) \<in> set (snd (smoothdata_log 0 (Some ''x'') 5 ?short))) \<and>
         0 \<le> int 3 - 2 \<and> int 3 - 2 < 2)"
    by (rule slices_in_range [where n = 3 and d = "''x''"]) (simp_all add: of_list_dim [simplified])
  then have "(\<forall>(a, b) \<in> set (snd (smoothdata_log 0 (Some ''x'') 5 ?short)).
      0 \<le> a \<and> a < b \<and> b \<le> int 3) \<longleftrightarrow> 2 * 2 \<le> int 3"
    by (rule conjunct1 [OF conjunct2 [OF conjunct2]])
  then have short: "\<not> list_all (\<lambda>(a, b). 0 \<le> a \<and> a < b \<and> b \<le> 3)
      (snd (smoothdata_log 0 (Some ''x'') 5 ?short))"
    by (simp add: list_all_iff)
  from short_all have "int 3 < 2 * 2 \<longrightarrow>
      (\<forall>index. int 3 - 2 \<le> index \<and> index < 2 \<longrightarrow>
         index \<in> set (py_range (int 3 - 2) (int 3)) \<and>
         end_slice (int 3) 2 index = (index - 2, int 3) \<and> index - 2 < 0 \<and>
         (index - 2, int 3) \<in> set (snd (smoothdata_log 0 (Some ''x'') 5 ?short))) \<and>
      0 \<le> int 3 - 2 \<and> int 3 - 2 < 2"
    by (rule conjunct2 [OF conjunct2 [OF conjunct2 [OF conjunct2]]])
  then have "\<forall>index. int 3 - 2 \<le> index \<and> index < 2 \<longrightarrow>
      index \<in> set (py_range (int 3 - 2) (int 3)) \<and>
      end_slice (int 3) 2 index = (index - 2, int 3) \<and> index - 2 < 0 \<and>
      (index - 2, int 3) \<in> set (snd (smoothdata_log 0 (Some ''x'') 5 ?short))"
    by simp
  from this [rule_format, of 1]
  have at: "end_slice 3 2 1 = (- 1, 3) \<and>
      (- 1, 3) \<in> set (snd (smoothdata_log 0 (Some ''x'') 5 ?short))"
    by simp
  from long short at show ?thesis by simp
qed

text \<open>
  C10 as stated calls \<open>N \<ge> NPoints\<close> necessary. On the two values 1, 5 with \<open>NPoints = 3\<close>
  (\<open>N = 2 < NPoints\<close>) the call returns, and the loops take the slices \<open>[0 : 2]\<close> and
  \<open>[0 : 2]\<close>, both in range.
\<close>

theorem slices_in_range_short_counterexample:
  "fst (fst (smoothdata_log 0 (Some ''x'') 3 [of_list ''x'' [1, 5]])) = Inr 1 \<and>
   fst (smoothdata 0 (Some ''x'') 3 [of_list ''x'' [1, 5]]) = Inr 1 \<and>
   snd (smoothdata_log 0 (Some ''x'') 3 [of_list ''x'' [1, 5]]) = [(0, 2), (0, 2)] \<and>
   extent (of_list ''x'' [1, 5]) ''x'' = Some 2 \<and> (2::int) < 3"
  by code_simp

end
